theory Spec2Isabelle
  imports Complex_Main
begin

section \<open>Errors\<close>

text \<open>
  The exceptions that the modelled parts of \<^verbatim>\<open>finetune.py\<close> can raise.  A function that
  may raise returns \<open>error + 'a\<close>, with \<open>Inl\<close> carrying the exception.
  \<^item> \<open>NotImplementedError\<close>: the \<^verbatim>\<open>raise NotImplementedError()\<close> of the collators;
  \<^item> \<open>AssertionError\<close>: the \<^verbatim>\<open>assert 'prompt' not in example\<close> of the mixture collator;
  \<^item> \<open>KeyError k\<close>: subscripting a dict with a key \<open>k\<close> it does not hold;
  \<^item> \<open>IndexError\<close>: \<^verbatim>\<open>[-1]\<close> on an empty list, and the chat template on an empty list of
    turns;
  \<^item> \<open>RuntimeError\<close>: \<^verbatim>\<open>torch.stack\<close> and \<^verbatim>\<open>pad_sequence\<close> on an empty list of tensors.
\<close>

datatype error =
    NotImplementedError
  | AssertionError
  | KeyError string
  | IndexError
  | RuntimeError

section \<open>The mixture trainer\<close>

text \<open>
  A loss is a scalar of a floating-point type: a finite number, one of the two
  infinities, or not a number.  Finite numbers are computed with exactly; the rounding
  and the overflow of the floating-point type are not part of the model.
\<close>

datatype scalar = Finite real | PosInf | NegInf | NaN

text \<open>
  \<^verbatim>\<open>c * x\<close> for a Python float \<open>c\<close> (finite here) and a scalar tensor \<open>x\<close>: zero times an
  infinity is not a number, and a negative factor turns an infinity around.
\<close>

fun scale :: "real \<Rightarrow> scalar \<Rightarrow> scalar" where
  "scale c (Finite x) = Finite (c * x)"
| "scale c PosInf = (if c = 0 then NaN else if 0 < c then PosInf else NegInf)"
| "scale c NegInf = (if c = 0 then NaN else if 0 < c then NegInf else PosInf)"
| "scale c NaN = NaN"

text \<open>\<^verbatim>\<open>x + y\<close> for two scalar tensors: the two infinities add up to not a number.\<close>

fun add :: "scalar \<Rightarrow> scalar \<Rightarrow> scalar" where
  "add NaN y = NaN"
| "add x NaN = NaN"
| "add PosInf NegInf = NaN"
| "add NegInf PosInf = NaN"
| "add PosInf y = PosInf"
| "add x PosInf = PosInf"
| "add NegInf y = NegInf"
| "add x NegInf = NegInf"
| "add (Finite x) (Finite y) = Finite (x + y)"

text \<open>\<^verbatim>\<open>MixtureTrainer\<close> keeps three lists of detached scalar losses.\<close>

record loss_window =
  stage1_loss :: "scalar list"
  stage2_loss :: "scalar list"
  total_loss :: "scalar list"

definition empty_window :: loss_window where
  "empty_window = \<lparr>stage1_loss = [], stage2_loss = [], total_loss = []\<rparr>"

text \<open>Subscripting a dict: \<^verbatim>\<open>inputs[k]\<close> raises \<^verbatim>\<open>KeyError\<close> when \<open>k\<close> is absent.\<close>

definition getitem :: "(string \<rightharpoonup> 'v) \<Rightarrow> string \<Rightarrow> error + 'v" where
  "getitem d k = (case d k of None \<Rightarrow> Inl (KeyError k) | Some v \<Rightarrow> Inr v)"

text \<open>
  \<^verbatim>\<open>torch.stack(xs).mean().item()\<close>: the arithmetic mean of a list of scalars, their sum
  divided by their number; \<^verbatim>\<open>torch.stack\<close> raises on an empty list.
\<close>

definition mean :: "scalar list \<Rightarrow> scalar" where
  "mean xs = scale (1 / real (length xs)) (foldr add xs (Finite 0))"

definition stack_mean :: "scalar list \<Rightarrow> error + scalar" where
  "stack_mean xs = (if xs = [] then Inl RuntimeError else Inr (mean xs))"

text \<open>
  \<^verbatim>\<open>MixtureTrainer.log\<close>.  \<open>super_log\<close> is the base class's \<^verbatim>\<open>log\<close>, acting on the state
  \<open>'b\<close> of the base trainer.  The result holds the \<^verbatim>\<open>logs\<close> dict as the call leaves it
  (it is updated in place), the base trainer's state and the loss window.
\<close>

definition window_means :: "loss_window \<Rightarrow> (string \<rightharpoonup> scalar) \<Rightarrow> error + (string \<rightharpoonup> scalar)" where
  "window_means w logs =
     (case stack_mean (stage1_loss w) of
        Inl e \<Rightarrow> Inl e
      | Inr m1 \<Rightarrow>
         (case stack_mean (stage2_loss w) of
            Inl e \<Rightarrow> Inl e
          | Inr m2 \<Rightarrow>
             (case stack_mean (total_loss w) of
                Inl e \<Rightarrow> Inl e
              | Inr mt \<Rightarrow>
                 Inr (logs(''stage1_loss'' \<mapsto> m1, ''stage2_loss'' \<mapsto> m2,
                           ''total_loss'' \<mapsto> mt)))))"

definition MixtureTrainer_log ::
  "((string \<rightharpoonup> scalar) \<Rightarrow> 'b \<Rightarrow> 'b) \<Rightarrow> (string \<rightharpoonup> scalar) \<Rightarrow> 'b \<times> loss_window
     \<Rightarrow> error + ((string \<rightharpoonup> scalar) \<times> 'b \<times> loss_window)" where
  "MixtureTrainer_log super_log logs st =
     (case (if length (total_loss (snd st)) > 0 then window_means (snd st) logs else Inr logs) of
        Inl e \<Rightarrow> Inl e
      | Inr logs' \<Rightarrow> Inr (logs', super_log logs' (fst st), empty_window))"

text \<open>
  \<^verbatim>\<open>MixtureTrainer.compute_loss\<close>.  \<open>super_compute_loss\<close> is the base class's
  \<^verbatim>\<open>compute_loss\<close> on one set of fields: it yields the loss and the model outputs, and
  the \<^verbatim>\<open>return_outputs\<close> flag only decides whether the outputs are handed back.
  \<open>stage2_ratio\<close> is \<^verbatim>\<open>self.args.stage2_ratio\<close>, a finite Python float.  The stage-2 fields are read and run
  first, then the stage-1 fields.  \<open>stage_inputs inputs prefix\<close> is the dict literal built
  from the three fields whose keys carry \<open>prefix\<close> (empty for stage 2, \<^verbatim>\<open>stage1_\<close> for
  stage 1), read in the order input ids, attention mask, labels.
\<close>

definition stage_inputs :: "(string \<rightharpoonup> 't) \<Rightarrow> string \<Rightarrow> error + (string \<rightharpoonup> 't)" where
  "stage_inputs inputs prefix =
     (case getitem inputs (prefix @ ''input_ids'') of
        Inl e \<Rightarrow> Inl e
      | Inr i \<Rightarrow>
         (case getitem inputs (prefix @ ''attention_mask'') of
            Inl e \<Rightarrow> Inl e
          | Inr a \<Rightarrow>
             (case getitem inputs (prefix @ ''labels'') of
                Inl e \<Rightarrow> Inl e
              | Inr l \<Rightarrow> Inr [''input_ids'' \<mapsto> i, ''attention_mask'' \<mapsto> a, ''labels'' \<mapsto> l])))"

definition MixtureTrainer_compute_loss ::
  "((string \<rightharpoonup> 't) \<Rightarrow> scalar \<times> 'o) \<Rightarrow> real \<Rightarrow> (string \<rightharpoonup> 't) \<Rightarrow> bool \<Rightarrow> loss_window
     \<Rightarrow> error + ((scalar \<times> 'o option) \<times> loss_window)" where
  "MixtureTrainer_compute_loss super_compute_loss stage2_ratio inputs return_outputs w =
     (case stage_inputs inputs [] of
        Inl e \<Rightarrow> Inl e
      | Inr stage2_inputs \<Rightarrow>
         (let stage2_rets = super_compute_loss stage2_inputs in
          (case stage_inputs inputs ''stage1_'' of
             Inl e \<Rightarrow> Inl e
           | Inr stage1_inputs \<Rightarrow>
              (let stage1_rets = super_compute_loss stage1_inputs;
                   stage1_loss_v = fst stage1_rets;
                   stage2_loss_v = fst stage2_rets;
                   stage2_output = (if return_outputs then Some (snd stage2_rets) else None);
                   loss = add (scale (1 - stage2_ratio) stage1_loss_v)
                              (scale stage2_ratio stage2_loss_v);
                   w' = \<lparr>stage1_loss = stage1_loss w @ [stage1_loss_v],
                         stage2_loss = stage2_loss w @ [stage2_loss_v],
                         total_loss = total_loss w @ [loss]\<rparr>
               in Inr ((loss, stage2_output), w')))))"

section \<open>The tokenizer\<close>

text \<open>
  A turn of a conversation is a dict with the keys \<^verbatim>\<open>role\<close> and \<^verbatim>\<open>content\<close>.  The role
  is kept as the string the source compares it with.
\<close>

record turn =
  role :: string
  content :: string

text \<open>
  The tokenizer belongs to the \<^verbatim>\<open>transformers\<close> library and is a parameter of the model:
  \<^item> \<open>bos_token_id\<close>, \<open>eos_token\<close>: the attributes of the same names;
  \<^item> \<open>pad_token_id\<close>: \<open>None\<close> when \<^verbatim>\<open>_pad_token is None\<close>, else the pad id;
  \<^item> \<open>convert_tokens_to_ids\<close>: the id of a named token;
  \<^item> \<open>encode\<close>: the token ids of a text, without special tokens and without truncation;
  \<^item> \<open>chat_template\<close>: the token ids of a list of turns rendered by the chat template,
    the flag being \<^verbatim>\<open>add_generation_prompt\<close>.
\<close>

record tokenizer =
  bos_token_id :: int
  eos_token :: string
  pad_token_id :: "int option"
  convert_tokens_to_ids :: "string \<Rightarrow> int"
  encode :: "string \<Rightarrow> int list"
  chat_template :: "turn list \<Rightarrow> bool \<Rightarrow> int list"

text \<open>
  What a tokenizer call returns: the token ids and the attention mask.  No call of the
  source asks for padding, so the mask the library returns is a one for every token.
\<close>

record batch_encoding =
  enc_input_ids :: "int list"
  enc_attention_mask :: "int list"

definition encoding_of :: "int list \<Rightarrow> batch_encoding" where
  "encoding_of ids = \<lparr>enc_input_ids = ids, enc_attention_mask = replicate (length ids) 1\<rparr>"

text \<open>
  \<^verbatim>\<open>tokenizer.apply_chat_template(turns, tokenize=True, return_dict=True,
  add_generation_prompt=g)\<close>.  The library raises \<^verbatim>\<open>IndexError\<close> when the list of turns is
  empty.
\<close>

definition apply_chat_template ::
  "tokenizer \<Rightarrow> turn list \<Rightarrow> bool \<Rightarrow> error + batch_encoding" where
  "apply_chat_template tok turns add_generation_prompt =
     (if turns = [] then Inl IndexError
      else Inr (encoding_of (chat_template tok turns add_generation_prompt)))"

text \<open>
  \<^verbatim>\<open>tokenizer(text, max_length=n, truncation=True, add_special_tokens=False)\<close>: the first
  \<open>n\<close> tokens of the text.
\<close>

definition tokenizer_call :: "tokenizer \<Rightarrow> string \<Rightarrow> nat \<Rightarrow> batch_encoding" where
  "tokenizer_call tok text max_length = encoding_of (take max_length (encode tok text))"

section \<open>Compiling a conversation into a sequence\<close>

definition IGNORE_INDEX :: int where
  "IGNORE_INDEX = - 100"

text \<open>
  The three lists a collator grows for one example, and (with lists of rows as fields)
  the three padded fields of a batch.
\<close>

record 'a fields =
  input_ids :: 'a
  attention_mask :: 'a
  labels :: 'a

type_synonym compiled = "int list fields"

type_synonym example = "string \<rightharpoonup> turn list"

text \<open>The lists as they are before the prompt and the turns are looked at.\<close>

definition init_sequence :: "tokenizer \<Rightarrow> compiled" where
  "init_sequence tok =
     \<lparr>input_ids = [bos_token_id tok], attention_mask = [1], labels = [IGNORE_INDEX]\<rparr>"

text \<open>
  Appending a rendered prompt (the context, or one user turn): the first token of the
  rendering is cut off (\<^verbatim>\<open>[1:]\<close>) and every appended position is ignored by the loss.
\<close>

definition append_ignored :: "compiled \<Rightarrow> batch_encoding \<Rightarrow> compiled" where
  "append_ignored acc output =
     \<lparr>input_ids = input_ids acc @ drop 1 (enc_input_ids output),
      attention_mask = attention_mask acc @ drop 1 (enc_attention_mask output),
      labels = labels acc @ replicate (length (drop 1 (enc_input_ids output))) IGNORE_INDEX\<rparr>"

text \<open>Appending an assistant turn: the labels are the token ids themselves.\<close>

definition append_supervised :: "compiled \<Rightarrow> batch_encoding \<Rightarrow> compiled" where
  "append_supervised acc output =
     \<lparr>input_ids = input_ids acc @ enc_input_ids output,
      attention_mask = attention_mask acc @ enc_attention_mask output,
      labels = labels acc @ enc_input_ids output\<rparr>"

text \<open>
  The loop \<^verbatim>\<open>for conv_dict in example[...]\<close>, the same in both collators: \<open>acc\<close> holds
  the three lists built so far.
\<close>

fun conv_loop :: "tokenizer \<Rightarrow> nat \<Rightarrow> turn list \<Rightarrow> compiled \<Rightarrow> error + compiled" where
  "conv_loop tok target_max_len [] acc = Inr acc"
| "conv_loop tok target_max_len (conv_dict # rest) acc =
     (if role conv_dict = ''user'' then
        (case apply_chat_template tok [conv_dict] True of
           Inl e \<Rightarrow> Inl e
         | Inr output \<Rightarrow> conv_loop tok target_max_len rest (append_ignored acc output))
      else if role conv_dict = ''assistant'' then
        conv_loop tok target_max_len rest
          (append_supervised acc
             (tokenizer_call tok (content conv_dict @ eos_token tok) target_max_len))
      else Inl NotImplementedError)"

text \<open>
  The gate of the single-stage collator,
  \<^verbatim>\<open>not W_PROMPT_RANDOMIZE or (W_PROMPT_RANDOMIZE and random.sample([0,1], 1)[0] % 2 == 0)\<close>.
  The random generator is a state \<open>'s\<close> with a function \<open>sample\<close> that draws one element
  of \<^verbatim>\<open>[0, 1]\<close> and moves the state on; it is only called when the flag is set.
\<close>

definition prompt_gate :: "('s \<Rightarrow> int \<times> 's) \<Rightarrow> bool \<Rightarrow> 's \<Rightarrow> bool \<times> 's" where
  "prompt_gate sample w_prompt_randomize rng =
     (if \<not> w_prompt_randomize then (True, rng)
      else (fst (sample rng) mod 2 = 0, snd (sample rng)))"

text \<open>
  The block \<^verbatim>\<open>if 'prompt' in example:\<close> of the single-stage collator: the context is
  rendered with \<^verbatim>\<open>add_generation_prompt=False\<close> when the gate lets it in.
\<close>

definition include_prompt ::
  "('s \<Rightarrow> int \<times> 's) \<Rightarrow> bool \<Rightarrow> tokenizer \<Rightarrow> example \<Rightarrow> compiled \<Rightarrow> 's
     \<Rightarrow> error + (compiled \<times> 's)" where
  "include_prompt sample w_prompt_randomize tok example acc rng =
     (case example ''prompt'' of
        None \<Rightarrow> Inr (acc, rng)
      | Some prompt \<Rightarrow>
         (if fst (prompt_gate sample w_prompt_randomize rng) then
            (case apply_chat_template tok prompt False of
               Inl e \<Rightarrow> Inl e
             | Inr output \<Rightarrow>
                Inr (append_ignored acc output, snd (prompt_gate sample w_prompt_randomize rng)))
          else Inr (acc, snd (prompt_gate sample w_prompt_randomize rng))))"

text \<open>
  The body of the loop over the instances in \<^verbatim>\<open>DataCollatorForMultiTurnCausalLM.__call__\<close>:
  one example becomes one sequence.
\<close>

definition compile_example ::
  "('s \<Rightarrow> int \<times> 's) \<Rightarrow> bool \<Rightarrow> tokenizer \<Rightarrow> nat \<Rightarrow> example \<Rightarrow> 's \<Rightarrow> error + (compiled \<times> 's)" where
  "compile_example sample w_prompt_randomize tok target_max_len example rng =
     (case include_prompt sample w_prompt_randomize tok example (init_sequence tok) rng of
        Inl e \<Rightarrow> Inl e
      | Inr with_prompt \<Rightarrow>
         (case getitem example ''conv'' of
            Inl e \<Rightarrow> Inl e
          | Inr conv \<Rightarrow>
             (case conv_loop tok target_max_len conv (fst with_prompt) of
                Inl e \<Rightarrow> Inl e
              | Inr acc \<Rightarrow> Inr (acc, snd with_prompt))))"

text \<open>
  The body of the loop over the instances in
  \<^verbatim>\<open>DataCollatorForMultiTurnMixtureTraining._collator\<close>: the assertion comes first, and the
  prompt branch after it is kept as the source has it.
\<close>

definition mixture_compile_example ::
  "tokenizer \<Rightarrow> nat \<Rightarrow> string \<Rightarrow> example \<Rightarrow> error + compiled" where
  "mixture_compile_example tok target_max_len input_column_name example =
     (let acc = init_sequence tok in
      if example ''prompt'' \<noteq> None then Inl AssertionError
      else
        (case (case example ''prompt'' of
                 None \<Rightarrow> Inr acc
               | Some prompt \<Rightarrow>
                  (case apply_chat_template tok prompt False of
                     Inl e \<Rightarrow> Inl e
                   | Inr output \<Rightarrow> Inr (append_ignored acc output))) of
           Inl e \<Rightarrow> Inl e
         | Inr acc \<Rightarrow>
            (case getitem example input_column_name of
               Inl e \<Rightarrow> Inl e
             | Inr conv \<Rightarrow> conv_loop tok target_max_len conv acc)))"

section \<open>Assembling a batch\<close>

text \<open>
  \<^verbatim>\<open>pad_sequence(seqs, batch_first=True, padding_value=v)\<close>: every row is filled on the
  right with \<open>v\<close> up to the length of the longest row; an empty list of rows is refused.
\<close>

definition max_len :: "'a list list \<Rightarrow> nat" where
  "max_len seqs = foldr max (map length seqs) 0"

definition pad_sequence :: "'a list list \<Rightarrow> 'a \<Rightarrow> error + 'a list list" where
  "pad_sequence seqs padding_value =
     (if seqs = [] then Inl RuntimeError
      else Inr (map (\<lambda>s. s @ replicate (max_len seqs - length s) padding_value) seqs))"

text \<open>
  The pad id: \<^verbatim>\<open>pad_token_id if _pad_token is not None else
  convert_tokens_to_ids("<|end_of_text|>")\<close>.
\<close>

definition pad_token :: "tokenizer \<Rightarrow> int" where
  "pad_token tok =
     (case pad_token_id tok of
        Some p \<Rightarrow> p
      | None \<Rightarrow> convert_tokens_to_ids tok ''<|end_of_text|>'')"

text \<open>The part of both collators under \<^verbatim>\<open># Apply padding\<close>.\<close>

definition apply_padding :: "tokenizer \<Rightarrow> compiled list \<Rightarrow> error + int list list fields" where
  "apply_padding tok seqs =
     (case pad_sequence (map input_ids seqs) (pad_token tok) of
        Inl e \<Rightarrow> Inl e
      | Inr batch_input_ids \<Rightarrow>
         (case pad_sequence (map attention_mask seqs) 0 of
            Inl e \<Rightarrow> Inl e
          | Inr batch_attention_mask \<Rightarrow>
             (case pad_sequence (map labels seqs) IGNORE_INDEX of
                Inl e \<Rightarrow> Inl e
              | Inr batch_labels \<Rightarrow>
                 Inr \<lparr>input_ids = batch_input_ids, attention_mask = batch_attention_mask,
                      labels = batch_labels\<rparr>)))"

text \<open>The loop over the instances of the single-stage collator, with the generator threaded.\<close>

fun compile_instances ::
  "('s \<Rightarrow> int \<times> 's) \<Rightarrow> bool \<Rightarrow> tokenizer \<Rightarrow> nat \<Rightarrow> example list \<Rightarrow> 's
     \<Rightarrow> error + (compiled list \<times> 's)" where
  "compile_instances sample w tok target_max_len [] rng = Inr ([], rng)"
| "compile_instances sample w tok target_max_len (example # rest) rng =
     (case compile_example sample w tok target_max_len example rng of
        Inl e \<Rightarrow> Inl e
      | Inr (s, rng') \<Rightarrow>
         (case compile_instances sample w tok target_max_len rest rng' of
            Inl e \<Rightarrow> Inl e
          | Inr (ss, rng'') \<Rightarrow> Inr (s # ss, rng'')))"

text \<open>\<^verbatim>\<open>DataCollatorForMultiTurnCausalLM.__call__\<close>.\<close>

definition DataCollatorForMultiTurnCausalLM_call ::
  "('s \<Rightarrow> int \<times> 's) \<Rightarrow> bool \<Rightarrow> tokenizer \<Rightarrow> nat \<Rightarrow> example list \<Rightarrow> 's
     \<Rightarrow> error + (int list list fields \<times> 's)" where
  "DataCollatorForMultiTurnCausalLM_call sample w tok target_max_len instances rng =
     (case compile_instances sample w tok target_max_len instances rng of
        Inl e \<Rightarrow> Inl e
      | Inr (seqs, rng') \<Rightarrow>
         (case apply_padding tok seqs of
            Inl e \<Rightarrow> Inl e
          | Inr data_dict \<Rightarrow> Inr (data_dict, rng')))"

text \<open>The loop over the instances of the mixture collator.\<close>

fun mixture_compile_instances ::
  "tokenizer \<Rightarrow> nat \<Rightarrow> string \<Rightarrow> example list \<Rightarrow> error + compiled list" where
  "mixture_compile_instances tok target_max_len input_column_name [] = Inr []"
| "mixture_compile_instances tok target_max_len input_column_name (example # rest) =
     (case mixture_compile_example tok target_max_len input_column_name example of
        Inl e \<Rightarrow> Inl e
      | Inr s \<Rightarrow>
         (case mixture_compile_instances tok target_max_len input_column_name rest of
            Inl e \<Rightarrow> Inl e
          | Inr ss \<Rightarrow> Inr (s # ss)))"

text \<open>\<^verbatim>\<open>DataCollatorForMultiTurnMixtureTraining._collator\<close>.\<close>

definition DataCollatorForMultiTurnMixtureTraining_collator ::
  "tokenizer \<Rightarrow> nat \<Rightarrow> example list \<Rightarrow> string \<Rightarrow> error + int list list fields" where
  "DataCollatorForMultiTurnMixtureTraining_collator tok target_max_len instances input_column_name =
     (case mixture_compile_instances tok target_max_len input_column_name instances of
        Inl e \<Rightarrow> Inl e
      | Inr seqs \<Rightarrow> apply_padding tok seqs)"

text \<open>
  The dict a collator returns, as a list of its items, and
  \<^verbatim>\<open>DataCollatorForMultiTurnMixtureTraining.__call__\<close>: the stage-2 batch is built first,
  then the stage-1 batch, whose keys get the prefix \<^verbatim>\<open>stage1_\<close>; in the merged dict
  \<^verbatim>\<open>{**stage1_dict, **stage2_dict}\<close> an entry of the stage-2 dict wins.
\<close>

definition items :: "'a fields \<Rightarrow> (string \<times> 'a) list" where
  "items d =
     [(''input_ids'', input_ids d), (''attention_mask'', attention_mask d), (''labels'', labels d)]"

definition DataCollatorForMultiTurnMixtureTraining_call ::
  "tokenizer \<Rightarrow> nat \<Rightarrow> example list \<Rightarrow> error + (string \<rightharpoonup> int list list)" where
  "DataCollatorForMultiTurnMixtureTraining_call tok target_max_len instances =
     (case DataCollatorForMultiTurnMixtureTraining_collator tok target_max_len instances
             ''stage2_conv'' of
        Inl e \<Rightarrow> Inl e
      | Inr stage2_dict \<Rightarrow>
         (case DataCollatorForMultiTurnMixtureTraining_collator tok target_max_len instances
                 ''stage1_conv'' of
            Inl e \<Rightarrow> Inl e
          | Inr stage1_dict \<Rightarrow>
             Inr (map_of (map (\<lambda>(k, v). (''stage1_'' @ k, v)) (items stage1_dict))
                    ++ map_of (items stage2_dict))))"

section \<open>The context history of \<^verbatim>\<open>make_data_module\<close>\<close>

text \<open>
  The format \<^verbatim>\<open>conv-stage2_w_prompt\<close> builds the context of an example from a text in
  which the markers \<^verbatim>\<open><USER>:\<close> and \<^verbatim>\<open><AGENT>:\<close> separate the turns.  A \<open>char\<close> stands
  for one character of the text, so the texts of the model are those whose characters
  have a code under 256.

  \<^verbatim>\<open>re.split(r"<USER>:|<AGENT>:", s)\<close>: the text is read from the left; at a marker the
  piece read so far (\<open>cur\<close>, kept reversed) is closed and reading goes on behind the marker.
\<close>

function re_split :: "string \<Rightarrow> string \<Rightarrow> string list" where
  "re_split cur [] = [rev cur]"
| "re_split cur (c # cs) =
     (if take 7 (c # cs) = ''<USER>:'' then rev cur # re_split [] (drop 7 (c # cs))
      else if take 8 (c # cs) = ''<AGENT>:'' then rev cur # re_split [] (drop 8 (c # cs))
      else re_split (c # cur) cs)"
  by pat_completeness auto
termination
  by (relation "measure (\<lambda>(cur, s). length s)") auto

text \<open>
  \<^verbatim>\<open>str.strip()\<close> removes the white space at both ends; the characters below are those
  with a code under 256 that \<^verbatim>\<open>str.isspace\<close> accepts.
\<close>

definition isspace :: "char \<Rightarrow> bool" where
  "isspace c = ((of_char c :: nat) \<in> {9, 10, 11, 12, 13, 28, 29, 30, 31, 32, 133, 160})"

definition strip :: "string \<Rightarrow> string" where
  "strip s = rev (dropWhile isspace (rev (dropWhile isspace s)))"

text \<open>
  The turns before the last one is looked at: the pieces are stripped, the empty ones
  are dropped, and the roles alternate by position, starting with the user.
\<close>

definition context_turns :: "string \<Rightarrow> turn list" where
  "context_turns context =
     (let conv_list = re_split [] context;
          conv_list = map strip conv_list;
          conv_list = filter (\<lambda>t. t \<noteq> []) conv_list
      in map (\<lambda>(i, t). if i mod 2 = 0 then \<lparr>role = ''user'', content = t\<rparr>
                         else \<lparr>role = ''assistant'', content = t\<rparr>)
             (enumerate 0 conv_list))"

text \<open>
  \<^verbatim>\<open>if context_history[-1]['role'] == 'user': context_history = context_history[:-1]\<close>;
  \<^verbatim>\<open>[-1]\<close> raises on an empty list.
\<close>

definition context_history :: "string \<Rightarrow> error + turn list" where
  "context_history context =
     (let h = context_turns context in
      if h = [] then Inl IndexError
      else if role (last h) = ''user'' then Inr (butlast h)
      else Inr h)"

section \<open>A small tokenizer and generator for concrete runs\<close>

text \<open>
  A tokenizer that has one token per character, with the code of the character as its
  id.  Its chat template opens with the id 1, renders a turn as a header (10 for the
  user, 11 for any other role), the content and the id 2, and ends with the header 11
  when a generation prompt is asked for.  It has no pad token; the named token has id 0.
\<close>

definition toy_tokenizer :: tokenizer where
  "toy_tokenizer =
     \<lparr>bos_token_id = 1,
      eos_token = ''$'',
      pad_token_id = None,
      convert_tokens_to_ids = (\<lambda>t. 0),
      encode = map (\<lambda>c. int (of_char c)),
      chat_template = (\<lambda>turns g.
         1 # concat (map (\<lambda>t. (if role t = ''user'' then 10 else 11)
                                 # map (\<lambda>c. int (of_char c)) (content t) @ [2]) turns)
           @ (if g then [11] else []))\<rparr>"

text \<open>A generator whose state is a counter and whose draws alternate between 0 and 1.\<close>

definition toy_sample :: "nat \<Rightarrow> int \<times> nat" where
  "toy_sample k = (int (k mod 2), Suc k)"

text \<open>A forward pass on fields that are numbers: the loss is their sum, the output their list.\<close>

definition toy_forward :: "(string \<rightharpoonup> nat) \<Rightarrow> scalar \<times> nat list" where
  "toy_forward d =
     (let xs = map (\<lambda>k. case d k of None \<Rightarrow> 0 | Some v \<Rightarrow> v)
                   [''input_ids'', ''attention_mask'', ''labels'']
      in (Finite (real (sum_list xs)), xs))"

text \<open>The same forward pass, but with an infinite loss when the token ids are the number 1.\<close>

definition toy_forward_inf :: "(string \<rightharpoonup> nat) \<Rightarrow> scalar \<times> nat list" where
  "toy_forward_inf d =
     (if d ''input_ids'' = Some 1 then (PosInf, snd (toy_forward d)) else toy_forward d)"

definition toy_inputs :: "string \<rightharpoonup> nat" where
  "toy_inputs =
     [''input_ids'' \<mapsto> 1, ''attention_mask'' \<mapsto> 2, ''labels'' \<mapsto> 3,
      ''stage1_input_ids'' \<mapsto> 4, ''stage1_attention_mask'' \<mapsto> 5, ''stage1_labels'' \<mapsto> 6]"

section \<open>Aligned sequences\<close>

text \<open>The three lists of a sequence have one length.\<close>

definition aligned :: "compiled \<Rightarrow> bool" where
  "aligned s \<longleftrightarrow>
     length (input_ids s) = length (attention_mask s) \<and>
     length (attention_mask s) = length (labels s)"

section \<open>The context as Claim C6 words it\<close>

text \<open>
  Claim C6 says that an included context is rendered with the framing that expects a
  reply, the one the user turns get (\<^verbatim>\<open>add_generation_prompt=True\<close>), and that its first
  token is then cut off.  This definition follows the words of the claim, not the source.
\<close>

definition claimed_context_tokens :: "tokenizer \<Rightarrow> turn list \<Rightarrow> int list" where
  "claimed_context_tokens tok prompt = drop 1 (chat_template tok prompt True)"

section \<open>The loss window and the combined loss\<close>

text \<open>
  The three lists of the loss window are filled together, so in every state that the
  trainer reaches they have one length.
\<close>

definition window_ok :: "loss_window \<Rightarrow> bool" where
  "window_ok w \<longleftrightarrow>
     length (stage1_loss w) = length (total_loss w) \<and>
     length (stage2_loss w) = length (total_loss w)"

lemma window_ok_empty: "window_ok empty_window"
  by (simp add: window_ok_def empty_window_def)

lemma stage_inputs_present:
  assumes "inputs (prefix @ ''input_ids'') = Some i"
    and "inputs (prefix @ ''attention_mask'') = Some a"
    and "inputs (prefix @ ''labels'') = Some l"
  shows "stage_inputs inputs prefix
           = Inr [''input_ids'' \<mapsto> i, ''attention_mask'' \<mapsto> a, ''labels'' \<mapsto> l]"
  using assms by (simp add: stage_inputs_def getitem_def)

lemma compute_loss_present:
  assumes "stage_inputs inputs [] = Inr s2"
    and "stage_inputs inputs ''stage1_'' = Inr s1"
  shows "MixtureTrainer_compute_loss f r inputs ro w =
           Inr ((add (scale (1 - r) (fst (f s1))) (scale r (fst (f s2))),
                 if ro then Some (snd (f s2)) else None),
                \<lparr>stage1_loss = stage1_loss w @ [fst (f s1)],
                 stage2_loss = stage2_loss w @ [fst (f s2)],
                 total_loss = total_loss w
                   @ [add (scale (1 - r) (fst (f s1))) (scale r (fst (f s2)))]\<rparr>)"
  using assms by (simp add: MixtureTrainer_compute_loss_def Let_def)

lemma compute_loss_window_ok:
  assumes "MixtureTrainer_compute_loss f r inputs ro w = Inr (res, w')" and "window_ok w"
  shows "window_ok w'"
  using assms
  by (auto simp: MixtureTrainer_compute_loss_def Let_def window_ok_def split: sum.splits)

lemma log_window_empty:
  assumes "MixtureTrainer_log super_log logs (base, w) = Inr (logs', base', w')"
  shows "w' = empty_window"
  using assms by (auto simp: MixtureTrainer_log_def split: sum.splits if_splits)

lemma window_means_ok:
  assumes "window_ok w" and "total_loss w \<noteq> []"
  shows "window_means w logs =
           Inr (logs(''stage1_loss'' \<mapsto> mean (stage1_loss w),
                     ''stage2_loss'' \<mapsto> mean (stage2_loss w),
                     ''total_loss'' \<mapsto> mean (total_loss w)))"
proof -
  from assms have "stage1_loss w \<noteq> []" and "stage2_loss w \<noteq> []"
    by (auto simp: window_ok_def)
  with assms(2) show ?thesis
    by (simp add: window_means_def stack_mean_def)
qed

lemma foldr_add_finite: "foldr add (map Finite xs) (Finite 0) = Finite (sum_list xs)"
  by (induction xs) simp_all

lemma mean_finite: "mean (map Finite xs) = Finite (sum_list xs / real (length xs))"
  by (simp add: mean_def foldr_add_finite)

text \<open>
  Claim C3, as amended.  When the batch holds the six fields and the two stage losses
  are finite, \<^verbatim>\<open>compute_loss\<close> returns \<open>(1 - stage2_ratio) * lossA + stage2_ratio * lossB\<close>,
  where \<open>lossA\<close> is the loss of the forward pass on the fields with the prefix
  \<^verbatim>\<open>stage1_\<close> and \<open>lossB\<close> the loss of the forward pass on the fields without prefix.  For
  a ratio of 0 this is \<open>lossA\<close>, for a ratio of 1 it is \<open>lossB\<close>, for a ratio of one half it
  is the average of the two.
\<close>

theorem compute_loss_combination:
  assumes "inputs ''input_ids'' = Some i2"
    and "inputs ''attention_mask'' = Some a2"
    and "inputs ''labels'' = Some l2"
    and "inputs ''stage1_input_ids'' = Some i1"
    and "inputs ''stage1_attention_mask'' = Some a1"
    and "inputs ''stage1_labels'' = Some l1"
    and "fst (f [''input_ids'' \<mapsto> i1, ''attention_mask'' \<mapsto> a1, ''labels'' \<mapsto> l1]) = Finite lossA"
    and "fst (f [''input_ids'' \<mapsto> i2, ''attention_mask'' \<mapsto> a2, ''labels'' \<mapsto> l2]) = Finite lossB"
    and "0 \<le> r" and "r \<le> 1"
  shows "map_sum id (fst \<circ> fst) (MixtureTrainer_compute_loss f r inputs ro w)
           = Inr (Finite ((1 - r) * lossA + r * lossB))
       \<and> map_sum id (fst \<circ> fst) (MixtureTrainer_compute_loss f 0 inputs ro w)
           = Inr (Finite lossA)
       \<and> map_sum id (fst \<circ> fst) (MixtureTrainer_compute_loss f 1 inputs ro w)
           = Inr (Finite lossB)
       \<and> map_sum id (fst \<circ> fst) (MixtureTrainer_compute_loss f (1 / 2) inputs ro w)
           = Inr (Finite ((lossA + lossB) / 2))"
proof -
  have s2: "stage_inputs inputs []
              = Inr [''input_ids'' \<mapsto> i2, ''attention_mask'' \<mapsto> a2, ''labels'' \<mapsto> l2]"
    using assms(1-3) stage_inputs_present [of inputs "[]"] by simp
  have s1: "stage_inputs inputs ''stage1_''
              = Inr [''input_ids'' \<mapsto> i1, ''attention_mask'' \<mapsto> a1, ''labels'' \<mapsto> l1]"
    using assms(4-6) stage_inputs_present [of inputs "''stage1_''"] by simp
  show ?thesis
    unfolding compute_loss_present [OF s2 s1] assms(7,8)
    by (simp add: field_simps)
qed

theorem compute_loss_combination_witness:
  "map_sum id (fst \<circ> fst)
     (MixtureTrainer_compute_loss toy_forward (1 / 4) toy_inputs False empty_window)
     = Inr (Finite (51 / 4))
   \<and> map_sum id (fst \<circ> fst)
       (MixtureTrainer_compute_loss toy_forward 0 toy_inputs False empty_window)
       = Inr (Finite 15)
   \<and> map_sum id (fst \<circ> fst)
       (MixtureTrainer_compute_loss toy_forward 1 toy_inputs False empty_window)
       = Inr (Finite 6)
   \<and> map_sum id (fst \<circ> fst)
       (MixtureTrainer_compute_loss toy_forward (1 / 2) toy_inputs False empty_window)
       = Inr (Finite (21 / 2))"
  using compute_loss_combination [of toy_inputs 1 2 3 4 5 6 toy_forward 15 6 "1 / 4" False empty_window]
  by (simp add: toy_inputs_def toy_forward_def)

text \<open>
  Claim C3 as stated fails for a loss that is not finite: with a ratio of 0, a stage-1
  loss of 15 and an infinite stage-2 loss, the combined loss is not a number, not the
  stage-1 loss.
\<close>

theorem compute_loss_combination_counterexample:
  "fst (toy_forward_inf [''input_ids'' \<mapsto> 4, ''attention_mask'' \<mapsto> 5, ''labels'' \<mapsto> 6]) = Finite 15
   \<and> fst (toy_forward_inf [''input_ids'' \<mapsto> 1, ''attention_mask'' \<mapsto> 2, ''labels'' \<mapsto> 3]) = PosInf
   \<and> map_sum id (fst \<circ> fst)
       (MixtureTrainer_compute_loss toy_forward_inf 0 toy_inputs False empty_window)
       = Inr NaN
   \<and> map_sum id (fst \<circ> fst)
       (MixtureTrainer_compute_loss toy_forward_inf 0 toy_inputs False empty_window)
       \<noteq> Inr (Finite 15)"
  by (simp add: MixtureTrainer_compute_loss_def stage_inputs_def getitem_def Let_def
        toy_inputs_def toy_forward_inf_def toy_forward_def)

text \<open>
  Claim C10.  With \<^verbatim>\<open>return_outputs=True\<close> the outputs returned next to the combined loss
  are those of the forward pass on the fields without prefix (stage 2); the outputs of the
  stage-1 pass are not returned.  With \<^verbatim>\<open>return_outputs=False\<close> no outputs are returned.
\<close>

theorem compute_loss_outputs:
  assumes "inputs ''input_ids'' = Some i2"
    and "inputs ''attention_mask'' = Some a2"
    and "inputs ''labels'' = Some l2"
    and "inputs ''stage1_input_ids'' = Some i1"
    and "inputs ''stage1_attention_mask'' = Some a1"
    and "inputs ''stage1_labels'' = Some l1"
  shows "map_sum id (snd \<circ> fst) (MixtureTrainer_compute_loss f r inputs True w)
           = Inr (Some (snd (f [''input_ids'' \<mapsto> i2, ''attention_mask'' \<mapsto> a2, ''labels'' \<mapsto> l2])))
       \<and> map_sum id (snd \<circ> fst) (MixtureTrainer_compute_loss f r inputs False w) = Inr None"
proof -
  have s2: "stage_inputs inputs []
              = Inr [''input_ids'' \<mapsto> i2, ''attention_mask'' \<mapsto> a2, ''labels'' \<mapsto> l2]"
    using assms(1-3) stage_inputs_present [of inputs "[]"] by simp
  have s1: "stage_inputs inputs ''stage1_''
              = Inr [''input_ids'' \<mapsto> i1, ''attention_mask'' \<mapsto> a1, ''labels'' \<mapsto> l1]"
    using assms(4-6) stage_inputs_present [of inputs "''stage1_''"] by simp
  show ?thesis
    unfolding compute_loss_present [OF s2 s1] by simp
qed

theorem compute_loss_outputs_witness:
  "map_sum id (snd \<circ> fst)
     (MixtureTrainer_compute_loss toy_forward (1 / 4) toy_inputs True empty_window)
     = Inr (Some [1, 2, 3])
   \<and> map_sum id (snd \<circ> fst)
       (MixtureTrainer_compute_loss toy_forward (1 / 4) toy_inputs False empty_window) = Inr None"
  using compute_loss_outputs [of toy_inputs 1 2 3 4 5 6 toy_forward "1 / 4" empty_window]
  by (simp add: toy_inputs_def toy_forward_def)

text \<open>
  Claim C4.  In a state where the three lists of the loss window have one length,
  \<^verbatim>\<open>log\<close> does not raise: it hands to the base \<^verbatim>\<open>log\<close> the metrics unchanged when the
  window is empty, and the metrics with the three means under the keys
  \<^verbatim>\<open>stage1_loss\<close>, \<^verbatim>\<open>stage2_loss\<close> and \<^verbatim>\<open>total_loss\<close> when it is not, and it leaves the
  window empty in both cases.  A second \<^verbatim>\<open>log\<close> right after it, with any metrics, adds no
  key and does not raise.  The mean of finite losses is their sum divided by their number.
\<close>

theorem log_flushes_window:
  assumes "window_ok w"
  shows "\<exists>logs'.
           MixtureTrainer_log super_log logs (base, w)
             = Inr (logs', super_log logs' base, empty_window)
         \<and> (total_loss w = [] \<longrightarrow> logs' = logs)
         \<and> (total_loss w \<noteq> [] \<longrightarrow>
              logs' = logs(''stage1_loss'' \<mapsto> mean (stage1_loss w),
                           ''stage2_loss'' \<mapsto> mean (stage2_loss w),
                           ''total_loss'' \<mapsto> mean (total_loss w)))
         \<and> (\<forall>logs2. MixtureTrainer_log super_log logs2 (super_log logs' base, empty_window)
                       = Inr (logs2, super_log logs2 (super_log logs' base), empty_window))
         \<and> (\<forall>xs. mean (map Finite xs) = Finite (sum_list xs / real (length xs)))"
proof -
  have second: "MixtureTrainer_log super_log logs2 (b, empty_window)
                  = Inr (logs2, super_log logs2 b, empty_window)" for logs2 b
    by (simp add: MixtureTrainer_log_def empty_window_def)
  show ?thesis
  proof (cases "total_loss w = []")
    case True
    then have "MixtureTrainer_log super_log logs (base, w)
                 = Inr (logs, super_log logs base, empty_window)"
      by (simp add: MixtureTrainer_log_def)
    with True second mean_finite show ?thesis by blast
  next
    case False
    let ?logs' = "logs(''stage1_loss'' \<mapsto> mean (stage1_loss w),
                       ''stage2_loss'' \<mapsto> mean (stage2_loss w),
                       ''total_loss'' \<mapsto> mean (total_loss w))"
    from False have "MixtureTrainer_log super_log logs (base, w)
                 = Inr (?logs', super_log ?logs' base, empty_window)"
      using window_means_ok [OF assms False, of logs]
      by (simp add: MixtureTrainer_log_def)
    with False second mean_finite show ?thesis by blast
  qed
qed

theorem log_flushes_window_witness:
  "window_ok \<lparr>stage1_loss = [Finite 1, Finite 3], stage2_loss = [Finite 2, Finite 6],
              total_loss = [Finite 3, Finite 9]\<rparr>
   \<and> MixtureTrainer_log (\<lambda>l b. Suc b) Map.empty
        (0, \<lparr>stage1_loss = [Finite 1, Finite 3], stage2_loss = [Finite 2, Finite 6],
             total_loss = [Finite 3, Finite 9]\<rparr>)
      = Inr ([''stage1_loss'' \<mapsto> Finite 2, ''stage2_loss'' \<mapsto> Finite 4,
              ''total_loss'' \<mapsto> Finite 6], 1, empty_window)
   \<and> MixtureTrainer_log (\<lambda>l b. Suc b) [''loss'' \<mapsto> Finite 5] (1, empty_window)
      = Inr ([''loss'' \<mapsto> Finite 5], 2, empty_window)"
proof -
  let ?w = "\<lparr>stage1_loss = [Finite 1, Finite 3], stage2_loss = [Finite 2, Finite 6],
              total_loss = [Finite 3, Finite 9]\<rparr>"
  have ok: "window_ok ?w"
    by (simp add: window_ok_def)
  from log_flushes_window [OF ok, of "\<lambda>l b. Suc b" Map.empty "0::nat"]
  obtain logs' where
    first: "MixtureTrainer_log (\<lambda>l b. Suc b) Map.empty (0, ?w) = Inr (logs', Suc 0, empty_window)"
    and means: "logs' = [''stage1_loss'' \<mapsto> Finite 2, ''stage2_loss'' \<mapsto> Finite 4,
                         ''total_loss'' \<mapsto> Finite 6]"
    and again: "\<forall>logs2. MixtureTrainer_log (\<lambda>l b. Suc b) logs2 (Suc 0, empty_window)
                  = Inr (logs2, Suc (Suc 0), empty_window)"
    by (auto simp: mean_def)
  from again have "MixtureTrainer_log (\<lambda>l b. Suc b) [''loss'' \<mapsto> Finite 5] (Suc 0, empty_window)
                  = Inr ([''loss'' \<mapsto> Finite 5], Suc (Suc 0), empty_window)"
    by blast
  with ok first means show ?thesis
    by (simp add: numeral_2_eq_2)
qed

section \<open>Compiled sequences\<close>

lemma apply_chat_template_single:
  "apply_chat_template tok [t] g = Inr (encoding_of (chat_template tok [t] g))"
  by (simp add: apply_chat_template_def)

lemma aligned_init: "aligned (init_sequence tok)"
  by (simp add: aligned_def init_sequence_def)

lemma aligned_append_ignored: "aligned acc \<Longrightarrow> aligned (append_ignored acc (encoding_of ids))"
  by (simp add: aligned_def append_ignored_def encoding_of_def)

lemma aligned_append_supervised:
  "aligned acc \<Longrightarrow> aligned (append_supervised acc (encoding_of ids))"
  by (simp add: aligned_def append_supervised_def encoding_of_def)

lemma conv_loop_aligned:
  "conv_loop tok n conv acc = Inr r \<Longrightarrow> aligned acc \<Longrightarrow> aligned r"
proof (induction conv arbitrary: acc)
  case Nil
  then show ?case by simp
next
  case (Cons t ts)
  then show ?case
    by (auto simp: apply_chat_template_single tokenizer_call_def
          intro: aligned_append_ignored aligned_append_supervised split: if_splits)
qed

lemma conv_loop_split:
  "conv_loop tok n (pre @ post) acc =
     (case conv_loop tok n pre acc of Inl e \<Rightarrow> Inl e | Inr a \<Rightarrow> conv_loop tok n post a)"
  by (induction pre arbitrary: acc) (simp_all add: apply_chat_template_single)

lemma conv_loop_extends:
  "conv_loop tok n conv acc = Inr r \<Longrightarrow>
     \<exists>ids masks labs. input_ids r = input_ids acc @ ids
        \<and> attention_mask r = attention_mask acc @ masks \<and> labels r = labels acc @ labs"
proof (induction conv arbitrary: acc)
  case Nil
  then show ?case by simp
next
  case (Cons t ts)
  show ?case
  proof (cases "role t = ''user''")
    case True
    with Cons.prems have "conv_loop tok n ts
        (append_ignored acc (encoding_of (chat_template tok [t] True))) = Inr r"
      by (simp add: apply_chat_template_single)
    from Cons.IH [OF this] show ?thesis
      by (auto simp: append_ignored_def)
  next
    case False
    with Cons.prems have "conv_loop tok n ts
        (append_supervised acc (tokenizer_call tok (content t @ eos_token tok) n)) = Inr r"
      by (simp split: if_splits)
    from Cons.IH [OF this] show ?thesis
      by (auto simp: append_supervised_def)
  qed
qed

lemma include_prompt_aligned:
  "include_prompt sample w tok ex acc rng = Inr (acc', r) \<Longrightarrow> aligned acc \<Longrightarrow> aligned acc'"
  by (auto simp: include_prompt_def apply_chat_template_def
        intro: aligned_append_ignored split: option.splits if_splits)

lemma include_prompt_extends:
  "include_prompt sample w tok ex acc rng = Inr (acc', r) \<Longrightarrow>
     \<exists>ids masks labs.
        input_ids acc' = input_ids acc @ ids
      \<and> attention_mask acc' = attention_mask acc @ masks
      \<and> labels acc' = labels acc @ labs"
  by (auto simp: include_prompt_def append_ignored_def split: option.splits if_splits sum.splits)

lemma include_prompt_conv_irrelevant:
  "include_prompt sample w tok (ex(''conv'' \<mapsto> c)) acc rng = include_prompt sample w tok ex acc rng"
  by (simp add: include_prompt_def)

lemma compile_example_unfold:
  assumes "ex ''conv'' = Some conv"
  shows "compile_example sample w tok n ex rng =
           (case include_prompt sample w tok ex (init_sequence tok) rng of
              Inl e \<Rightarrow> Inl e
            | Inr p \<Rightarrow>
               (case conv_loop tok n conv (fst p) of
                  Inl e \<Rightarrow> Inl e
                | Inr acc' \<Rightarrow> Inr (acc', snd p)))"
  using assms by (auto simp: compile_example_def getitem_def split: sum.splits)

lemma compile_example_has_conv:
  assumes "compile_example sample w tok n ex rng = Inr res"
  shows "\<exists>conv. ex ''conv'' = Some conv"
  using assms
  by (auto simp: compile_example_def getitem_def split: option.splits sum.splits)

lemma compile_example_loop:
  assumes "compile_example sample w tok n ex rng = Inr (seq, rng')"
    and "ex ''conv'' = Some conv"
  shows "\<exists>acc. include_prompt sample w tok ex (init_sequence tok) rng = Inr (acc, rng')
             \<and> conv_loop tok n conv acc = Inr seq"
  using assms by (auto simp: compile_example_unfold split: sum.splits)

text \<open>
  Claim C2.  Every sequence that the single-stage collator compiles has three lists of
  one length, and its position 0 holds the beginning-of-sequence id, the attention mask
  1 and the label \<open>IGNORE_INDEX\<close>.
\<close>

theorem compiled_sequence_shape:
  assumes "compile_example sample w tok n ex rng = Inr (seq, rng')"
  shows "length (input_ids seq) = length (attention_mask seq)
       \<and> length (attention_mask seq) = length (labels seq)
       \<and> input_ids seq \<noteq> []
       \<and> input_ids seq ! 0 = bos_token_id tok
       \<and> attention_mask seq ! 0 = 1
       \<and> labels seq ! 0 = IGNORE_INDEX"
proof -
  from compile_example_has_conv [OF assms] obtain conv where conv: "ex ''conv'' = Some conv" ..
  from compile_example_loop [OF assms conv] obtain acc where
    incl: "include_prompt sample w tok ex (init_sequence tok) rng = Inr (acc, rng')" and
    loop: "conv_loop tok n conv acc = Inr seq"
    by blast
  have "aligned acc"
    using incl aligned_init by (rule include_prompt_aligned)
  with loop have al: "aligned seq"
    by (rule conv_loop_aligned)
  from include_prompt_extends [OF incl]
  obtain ids masks labs where acc:
    "input_ids acc = bos_token_id tok # ids" "attention_mask acc = 1 # masks"
    "labels acc = IGNORE_INDEX # labs"
    by (auto simp: init_sequence_def)
  from conv_loop_extends [OF loop] obtain ids' masks' labs' where
    "input_ids seq = input_ids acc @ ids'" "attention_mask seq = attention_mask acc @ masks'"
    "labels seq = labels acc @ labs'"
    by blast
  with acc have "input_ids seq = bos_token_id tok # ids @ ids'"
    "attention_mask seq = 1 # masks @ masks'" "labels seq = IGNORE_INDEX # labs @ labs'"
    by simp_all
  with al show ?thesis
    by (simp add: aligned_def)
qed

theorem compiled_sequence_shape_witness:
  "compile_example toy_sample False toy_tokenizer 3
     [''conv'' \<mapsto> [\<lparr>role = ''user'', content = ''hi''\<rparr>, \<lparr>role = ''assistant'', content = ''hello''\<rparr>]]
     (0::nat)
   = Inr (\<lparr>input_ids = [1, 10, 104, 105, 2, 11, 104, 101, 108],
           attention_mask = [1, 1, 1, 1, 1, 1, 1, 1, 1],
           labels = [- 100, - 100, - 100, - 100, - 100, - 100, 104, 101, 108]\<rparr>, 0)
   \<and> length [1, 10, 104, 105, 2, 11, 104, 101, 108 :: int] = length [1, 1, 1, 1, 1, 1, 1, 1, 1 :: int]
   \<and> [1, 10, 104, 105, 2, 11, 104, 101, 108 :: int] ! 0 = bos_token_id toy_tokenizer"
proof -
  have run: "compile_example toy_sample False toy_tokenizer 3
     [''conv'' \<mapsto> [\<lparr>role = ''user'', content = ''hi''\<rparr>, \<lparr>role = ''assistant'', content = ''hello''\<rparr>]]
     (0::nat)
   = Inr (\<lparr>input_ids = [1, 10, 104, 105, 2, 11, 104, 101, 108],
           attention_mask = [1, 1, 1, 1, 1, 1, 1, 1, 1],
           labels = [- 100, - 100, - 100, - 100, - 100, - 100, 104, 101, 108]\<rparr>, 0)"
    by (simp add: compile_example_def include_prompt_def getitem_def init_sequence_def
          append_ignored_def append_supervised_def apply_chat_template_def tokenizer_call_def
          encoding_of_def toy_tokenizer_def IGNORE_INDEX_def)
  from compiled_sequence_shape [OF run] show ?thesis
    using run by simp
qed

lemma conv_loop_prefix_ok:
  assumes "conv_loop tok n (pre @ post) acc = Inr r"
  shows "\<exists>a. conv_loop tok n pre acc = Inr a \<and> conv_loop tok n post a = Inr r"
  using assms by (auto simp: conv_loop_split split: sum.splits)

lemma conv_loop_labels_length:
  "conv_loop tok n conv acc = Inr r \<Longrightarrow> aligned acc \<Longrightarrow> length (labels r) = length (input_ids r)"
  using conv_loop_aligned [of tok n conv acc r] by (simp add: aligned_def)

lemma segment_nth:
  assumes "xs = (pre @ seg) @ rest" and "j < length seg"
  shows "xs ! (length pre + j) = seg ! j"
  using assms by (simp add: nth_append)

text \<open>
  Claim C1.  Let an example compile to \<open>seq\<close> and let \<open>t\<close> be one of its turns, after the
  turns \<open>pre\<close>.  The example cut off before \<open>t\<close> compiles as well, to \<open>before\<close>, and the
  positions that \<open>t\<close> contributes are those from \<open>length (input_ids before)\<close> on.  If \<open>t\<close> is
  a user turn, these positions hold its rendered prompt without the first token, and
  every label there is \<open>IGNORE_INDEX\<close>.  If \<open>t\<close> is an assistant turn, they hold the first
  \<open>target_max_len\<close> tokens of its content followed by the end-of-sequence marker, and every
  label there is the token id at the same position.
\<close>

theorem supervision_by_role:
  assumes "example ''conv'' = Some (pre @ t # post)"
    and "compile_example sample w tok n example rng = Inr (seq, rng')"
  shows "\<exists>before.
           map_sum id fst (compile_example sample w tok n (example(''conv'' \<mapsto> pre)) rng) = Inr before
         \<and> (role t = ''user'' \<longrightarrow>
              (\<forall>j < length (drop 1 (chat_template tok [t] True)).
                 input_ids seq ! (length (input_ids before) + j)
                   = drop 1 (chat_template tok [t] True) ! j
               \<and> labels seq ! (length (input_ids before) + j) = IGNORE_INDEX))
         \<and> (role t = ''assistant'' \<longrightarrow>
              (\<forall>j < length (take n (encode tok (content t @ eos_token tok))).
                 input_ids seq ! (length (input_ids before) + j)
                   = take n (encode tok (content t @ eos_token tok)) ! j
               \<and> labels seq ! (length (input_ids before) + j)
                   = input_ids seq ! (length (input_ids before) + j)))"
proof -
  from compile_example_loop [OF assms(2,1)] obtain acc where
    incl: "include_prompt sample w tok example (init_sequence tok) rng = Inr (acc, rng')" and
    loop: "conv_loop tok n (pre @ t # post) acc = Inr seq"
    by blast
  from conv_loop_prefix_ok [OF loop] obtain before where
    pre: "conv_loop tok n pre acc = Inr before" and
    rest: "conv_loop tok n (t # post) before = Inr seq"
    by blast
  have "aligned acc"
    using incl aligned_init by (rule include_prompt_aligned)
  with pre have len: "length (labels before) = length (input_ids before)"
    by (rule conv_loop_labels_length)
  have run: "map_sum id fst (compile_example sample w tok n (example(''conv'' \<mapsto> pre)) rng)
               = Inr before"
    using pre incl by (simp add: compile_example_unfold include_prompt_conv_irrelevant)
  have user: "input_ids seq ! (length (input_ids before) + j)
                = drop 1 (chat_template tok [t] True) ! j
            \<and> labels seq ! (length (input_ids before) + j) = IGNORE_INDEX"
    if u: "role t = ''user''" and j: "j < length (drop 1 (chat_template tok [t] True))" for j
  proof -
    let ?U = "drop 1 (chat_template tok [t] True)"
    from rest u have "conv_loop tok n post
        (append_ignored before (encoding_of (chat_template tok [t] True))) = Inr seq"
      by (simp add: apply_chat_template_single)
    from conv_loop_extends [OF this] obtain ids masks labs where
      "input_ids seq = (input_ids before @ ?U) @ ids"
      "labels seq = (labels before @ replicate (length ?U) IGNORE_INDEX) @ labs"
      by (auto simp: append_ignored_def encoding_of_def)
    then have "input_ids seq ! (length (input_ids before) + j) = ?U ! j"
      and "labels seq ! (length (labels before) + j) = replicate (length ?U) IGNORE_INDEX ! j"
      using j by (simp_all only: segment_nth length_replicate)
    with len j show ?thesis by simp
  qed
  have assistant: "input_ids seq ! (length (input_ids before) + j)
                = take n (encode tok (content t @ eos_token tok)) ! j
            \<and> labels seq ! (length (input_ids before) + j)
                = input_ids seq ! (length (input_ids before) + j)"
    if a: "role t = ''assistant''"
      and j: "j < length (take n (encode tok (content t @ eos_token tok)))" for j
  proof -
    let ?A = "take n (encode tok (content t @ eos_token tok))"
    from rest a have "conv_loop tok n post
        (append_supervised before (tokenizer_call tok (content t @ eos_token tok) n)) = Inr seq"
      by simp
    from conv_loop_extends [OF this] obtain ids masks labs where
      "input_ids seq = (input_ids before @ ?A) @ ids"
      "labels seq = (labels before @ ?A) @ labs"
      by (auto simp: append_supervised_def tokenizer_call_def encoding_of_def)
    then have "input_ids seq ! (length (input_ids before) + j) = ?A ! j"
      and "labels seq ! (length (labels before) + j) = ?A ! j"
      using j by (simp_all only: segment_nth)
    with len show ?thesis by simp
  qed
  from run user assistant show ?thesis by blast
qed

theorem supervision_by_role_witness:
  "compile_example toy_sample False toy_tokenizer 3
     [''conv'' \<mapsto> [\<lparr>role = ''user'', content = ''hi''\<rparr>, \<lparr>role = ''assistant'', content = ''hello''\<rparr>]]
     (0::nat)
   = Inr (\<lparr>input_ids = [1, 10, 104, 105, 2, 11, 104, 101, 108],
           attention_mask = [1, 1, 1, 1, 1, 1, 1, 1, 1],
           labels = [- 100, - 100, - 100, - 100, - 100, - 100, 104, 101, 108]\<rparr>, 0)
   \<and> [- 100, - 100, - 100, - 100, - 100, - 100, 104, 101, 108 :: int] ! 6
        = [1, 10, 104, 105, 2, 11, 104, 101, 108] ! 6
   \<and> [- 100, - 100, - 100, - 100, - 100, - 100, 104, 101, 108 :: int] ! 7
        = [1, 10, 104, 105, 2, 11, 104, 101, 108] ! 7
   \<and> [- 100, - 100, - 100, - 100, - 100, - 100, 104, 101, 108 :: int] ! 8
        = [1, 10, 104, 105, 2, 11, 104, 101, 108] ! 8"
proof -
  let ?u = "\<lparr>role = ''user'', content = ''hi''\<rparr>"
  let ?a = "\<lparr>role = ''assistant'', content = ''hello''\<rparr>"
  let ?seq = "\<lparr>input_ids = [1, 10, 104, 105, 2, 11, 104, 101, 108],
           attention_mask = [1, 1, 1, 1, 1, 1, 1, 1, 1],
           labels = [- 100, - 100, - 100, - 100, - 100, - 100, 104, 101, 108 :: int]\<rparr>"
  have conv: "[''conv'' \<mapsto> [?u, ?a]] ''conv'' = Some ([?u] @ ?a # [])"
    by simp
  have run: "compile_example toy_sample False toy_tokenizer 3 [''conv'' \<mapsto> [?u, ?a]] (0::nat)
               = Inr (?seq, 0)"
    by (simp add: compile_example_def include_prompt_def getitem_def init_sequence_def
          append_ignored_def append_supervised_def apply_chat_template_def tokenizer_call_def
          encoding_of_def toy_tokenizer_def IGNORE_INDEX_def)
  have before: "map_sum id fst
      (compile_example toy_sample False toy_tokenizer 3 ([''conv'' \<mapsto> [?u, ?a]](''conv'' \<mapsto> [?u])) (0::nat))
      = Inr \<lparr>input_ids = [1, 10, 104, 105, 2, 11], attention_mask = [1, 1, 1, 1, 1, 1],
             labels = [- 100, - 100, - 100, - 100, - 100, - 100]\<rparr>"
    by (simp add: compile_example_def include_prompt_def getitem_def init_sequence_def
          append_ignored_def append_supervised_def apply_chat_template_def tokenizer_call_def
          encoding_of_def toy_tokenizer_def IGNORE_INDEX_def)
  have toks: "take 3 (encode toy_tokenizer (content ?a @ eos_token toy_tokenizer)) = [104, 101, 108]"
    by (simp add: toy_tokenizer_def)
  from supervision_by_role [OF conv run] before toks
  have "\<forall>j < 3. input_ids ?seq ! (6 + j) = [104, 101, 108] ! j
          \<and> labels ?seq ! (6 + j) = input_ids ?seq ! (6 + j)"
    by auto
  then have "labels ?seq ! (6 + 0) = input_ids ?seq ! (6 + 0)"
    and "labels ?seq ! (6 + 1) = input_ids ?seq ! (6 + 1)"
    and "labels ?seq ! (6 + 2) = input_ids ?seq ! (6 + 2)"
    by simp_all
  with run show ?thesis by simp
qed

section \<open>Padded batches\<close>

lemma max_len_upper: "s \<in> set seqs \<Longrightarrow> length s \<le> max_len seqs"
  by (induction seqs) (auto simp: max_len_def)

lemma max_len_attained: "seqs \<noteq> [] \<Longrightarrow> \<exists>s \<in> set seqs. length s = max_len seqs"
proof (induction seqs)
  case Nil
  then show ?case by simp
next
  case (Cons s seqs)
  show ?case
  proof (cases "seqs = []")
    case True
    then show ?thesis by (simp add: max_len_def)
  next
    case False
    with Cons.IH obtain s' where "s' \<in> set seqs" "length s' = max_len seqs" by blast
    then show ?thesis
      by (cases "length s \<le> max_len seqs") (auto simp: max_len_def max_def)
  qed
qed

lemma max_len_cong:
  assumes "\<forall>s \<in> set seqs. length (f s) = length (g s)"
  shows "max_len (map f seqs) = max_len (map g seqs)"
  using assms by (induction seqs) (auto simp: max_len_def)

lemma pad_sequence_rows:
  assumes "seqs \<noteq> []"
  shows "pad_sequence seqs v
           = Inr (map (\<lambda>s. s @ replicate (max_len seqs - length s) v) seqs)"
  using assms by (simp add: pad_sequence_def)

lemma apply_padding_rows:
  assumes "seqs \<noteq> []" and "\<forall>s \<in> set seqs. aligned s"
  shows "apply_padding tok seqs =
           Inr \<lparr>input_ids = map (\<lambda>s. input_ids s
                     @ replicate (max_len (map input_ids seqs) - length (input_ids s)) (pad_token tok)) seqs,
                attention_mask = map (\<lambda>s. attention_mask s
                     @ replicate (max_len (map input_ids seqs) - length (input_ids s)) 0) seqs,
                labels = map (\<lambda>s. labels s
                     @ replicate (max_len (map input_ids seqs) - length (input_ids s)) IGNORE_INDEX) seqs\<rparr>"
proof -
  from assms(2) have m: "max_len (map attention_mask seqs) = max_len (map input_ids seqs)"
    and l: "max_len (map labels seqs) = max_len (map input_ids seqs)"
    by (auto intro!: max_len_cong simp: aligned_def)
  from assms(2) have eq: "\<forall>s \<in> set seqs. length (attention_mask s) = length (input_ids s)
      \<and> length (labels s) = length (input_ids s)"
    by (simp add: aligned_def)
  from assms(1) eq show ?thesis
    by (simp add: apply_padding_def pad_sequence_rows m l comp_def)
qed

text \<open>
  Claim C5.  For a non-empty list of sequences whose three lists have one length, the
  padding step succeeds; each of the three fields of the batch has one row per sequence,
  every row is as long as the longest sequence, every row starts with the sequence it
  comes from, and at every position behind the end of that sequence the token id is the
  pad id, the attention mask is 0 and the label is \<open>IGNORE_INDEX\<close>.  The pad id is the
  tokenizer's pad id when it has one, and the id of \<^verbatim>\<open><|end_of_text|>\<close> otherwise.
\<close>

theorem padding_right_pads:
  assumes "seqs \<noteq> []" and "\<forall>s \<in> set seqs. aligned s"
  shows "\<exists>batch.
           apply_padding tok seqs = Inr batch
         \<and> length (input_ids batch) = length seqs
         \<and> length (attention_mask batch) = length seqs
         \<and> length (labels batch) = length seqs
         \<and> (\<exists>s \<in> set seqs. length (input_ids s) = max_len (map input_ids seqs))
         \<and> (\<forall>i < length seqs.
               length (input_ids (seqs ! i)) \<le> max_len (map input_ids seqs)
             \<and> length (input_ids batch ! i) = max_len (map input_ids seqs)
             \<and> length (attention_mask batch ! i) = max_len (map input_ids seqs)
             \<and> length (labels batch ! i) = max_len (map input_ids seqs)
             \<and> take (length (input_ids (seqs ! i))) (input_ids batch ! i) = input_ids (seqs ! i)
             \<and> take (length (input_ids (seqs ! i))) (attention_mask batch ! i)
                 = attention_mask (seqs ! i)
             \<and> take (length (input_ids (seqs ! i))) (labels batch ! i) = labels (seqs ! i)
             \<and> (\<forall>j. length (input_ids (seqs ! i)) \<le> j \<and> j < max_len (map input_ids seqs) \<longrightarrow>
                    input_ids batch ! i ! j = pad_token tok
                  \<and> attention_mask batch ! i ! j = 0
                  \<and> labels batch ! i ! j = IGNORE_INDEX))
         \<and> (\<forall>p. pad_token_id tok = Some p \<longrightarrow> pad_token tok = p)
         \<and> (pad_token_id tok = None \<longrightarrow>
               pad_token tok = convert_tokens_to_ids tok ''<|end_of_text|>'')"
proof -
  let ?L = "max_len (map input_ids seqs)"
  let ?batch = "\<lparr>input_ids = map (\<lambda>s. input_ids s
                     @ replicate (?L - length (input_ids s)) (pad_token tok)) seqs,
                attention_mask = map (\<lambda>s. attention_mask s
                     @ replicate (?L - length (input_ids s)) 0) seqs,
                labels = map (\<lambda>s. labels s
                     @ replicate (?L - length (input_ids s)) IGNORE_INDEX) seqs\<rparr>"
  have res: "apply_padding tok seqs = Inr ?batch"
    using assms by (rule apply_padding_rows)
  have att: "\<exists>s \<in> set seqs. length (input_ids s) = ?L"
    using max_len_attained [of "map input_ids seqs"] assms(1) by auto
  have rows: "length (input_ids (seqs ! i)) \<le> ?L
             \<and> length (input_ids ?batch ! i) = ?L
             \<and> length (attention_mask ?batch ! i) = ?L
             \<and> length (labels ?batch ! i) = ?L
             \<and> take (length (input_ids (seqs ! i))) (input_ids ?batch ! i) = input_ids (seqs ! i)
             \<and> take (length (input_ids (seqs ! i))) (attention_mask ?batch ! i)
                 = attention_mask (seqs ! i)
             \<and> take (length (input_ids (seqs ! i))) (labels ?batch ! i) = labels (seqs ! i)
             \<and> (\<forall>j. length (input_ids (seqs ! i)) \<le> j \<and> j < ?L \<longrightarrow>
                    input_ids ?batch ! i ! j = pad_token tok
                  \<and> attention_mask ?batch ! i ! j = 0
                  \<and> labels ?batch ! i ! j = IGNORE_INDEX)"
    if i: "i < length seqs" for i
  proof -
    from i have mem: "seqs ! i \<in> set seqs" by simp
    with assms(2) have al: "length (attention_mask (seqs ! i)) = length (input_ids (seqs ! i))"
      "length (labels (seqs ! i)) = length (input_ids (seqs ! i))"
      by (simp_all add: aligned_def)
    from mem have le: "length (input_ids (seqs ! i)) \<le> ?L"
      using max_len_upper [of "input_ids (seqs ! i)" "map input_ids seqs"] by simp
    have rep: "replicate (?L - length (input_ids (seqs ! i))) v ! (j - length (input_ids (seqs ! i))) = v"
      if "length (input_ids (seqs ! i)) \<le> j" "j < ?L" for j and v :: int
      using that by (intro nth_replicate) arith
    have pads: "\<forall>j. length (input_ids (seqs ! i)) \<le> j \<and> j < ?L \<longrightarrow>
                    input_ids ?batch ! i ! j = pad_token tok
                  \<and> attention_mask ?batch ! i ! j = 0
                  \<and> labels ?batch ! i ! j = IGNORE_INDEX"
    proof (intro allI impI)
      fix j
      assume j: "length (input_ids (seqs ! i)) \<le> j \<and> j < ?L"
      with i al show "input_ids ?batch ! i ! j = pad_token tok
                  \<and> attention_mask ?batch ! i ! j = 0
                  \<and> labels ?batch ! i ! j = IGNORE_INDEX"
        by (simp add: nth_append rep)
    qed
    from i le al have "length (input_ids (seqs ! i)) \<le> ?L
             \<and> length (input_ids ?batch ! i) = ?L
             \<and> length (attention_mask ?batch ! i) = ?L
             \<and> length (labels ?batch ! i) = ?L
             \<and> take (length (input_ids (seqs ! i))) (input_ids ?batch ! i) = input_ids (seqs ! i)
             \<and> take (length (input_ids (seqs ! i))) (attention_mask ?batch ! i)
                 = attention_mask (seqs ! i)
             \<and> take (length (input_ids (seqs ! i))) (labels ?batch ! i) = labels (seqs ! i)"
      by simp
    with pads show ?thesis by blast
  qed
  have rows': "\<forall>i < length seqs.
               length (input_ids (seqs ! i)) \<le> ?L
             \<and> length (input_ids ?batch ! i) = ?L
             \<and> length (attention_mask ?batch ! i) = ?L
             \<and> length (labels ?batch ! i) = ?L
             \<and> take (length (input_ids (seqs ! i))) (input_ids ?batch ! i) = input_ids (seqs ! i)
             \<and> take (length (input_ids (seqs ! i))) (attention_mask ?batch ! i)
                 = attention_mask (seqs ! i)
             \<and> take (length (input_ids (seqs ! i))) (labels ?batch ! i) = labels (seqs ! i)
             \<and> (\<forall>j. length (input_ids (seqs ! i)) \<le> j \<and> j < ?L \<longrightarrow>
                    input_ids ?batch ! i ! j = pad_token tok
                  \<and> attention_mask ?batch ! i ! j = 0
                  \<and> labels ?batch ! i ! j = IGNORE_INDEX)"
    by (intro allI impI) (rule rows)
  have pad1: "\<forall>p. pad_token_id tok = Some p \<longrightarrow> pad_token tok = p"
    by (simp add: pad_token_def)
  have pad2: "pad_token_id tok = None \<longrightarrow>
               pad_token tok = convert_tokens_to_ids tok ''<|end_of_text|>''"
    by (simp add: pad_token_def)
  have len1: "length (input_ids ?batch) = length seqs"
    and len2: "length (attention_mask ?batch) = length seqs"
    and len3: "length (labels ?batch) = length seqs"
    by simp_all
  from res len1 len2 len3 att rows' pad1 pad2 show ?thesis
    by (intro exI [of _ ?batch] conjI) assumption+
qed

theorem padding_right_pads_witness:
  "([\<lparr>input_ids = [1, 5, 6], attention_mask = [1, 1, 1], labels = [- 100, 5, 6]\<rparr>,
     \<lparr>input_ids = [1], attention_mask = [1], labels = [- 100]\<rparr>] :: compiled list) \<noteq> []
   \<and> aligned \<lparr>input_ids = [1, 5, 6], attention_mask = [1, 1, 1], labels = [- 100, 5, 6]\<rparr>
   \<and> aligned \<lparr>input_ids = [1], attention_mask = [1], labels = [- 100]\<rparr>
   \<and> apply_padding toy_tokenizer
        [\<lparr>input_ids = [1, 5, 6], attention_mask = [1, 1, 1], labels = [- 100, 5, 6]\<rparr>,
         \<lparr>input_ids = [1], attention_mask = [1], labels = [- 100]\<rparr>]
      = Inr \<lparr>input_ids = [[1, 5, 6], [1, 0, 0]],
             attention_mask = [[1, 1, 1], [1, 0, 0]],
             labels = [[- 100, 5, 6], [- 100, - 100, - 100]]\<rparr>
   \<and> [[1, 5, 6], [1, 0, 0 :: int]] ! 1 ! 2 = pad_token toy_tokenizer
   \<and> [[1, 1, 1], [1, 0, 0 :: int]] ! 1 ! 2 = 0
   \<and> [[- 100, 5, 6], [- 100, - 100, - 100 :: int]] ! 1 ! 2 = IGNORE_INDEX"
proof -
  let ?seqs = "[\<lparr>input_ids = [1, 5, 6], attention_mask = [1, 1, 1], labels = [- 100, 5, 6]\<rparr>,
                \<lparr>input_ids = [1], attention_mask = [1], labels = [- 100 :: int]\<rparr>]"
  let ?B = "\<lparr>input_ids = [[1, 5, 6], [1, 0, 0]],
             attention_mask = [[1, 1, 1], [1, 0, 0]],
             labels = [[- 100, 5, 6], [- 100, - 100, - 100 :: int]]\<rparr>"
  have ne: "?seqs \<noteq> []" by simp
  have a1: "aligned \<lparr>input_ids = [1, 5, 6], attention_mask = [1, 1, 1], labels = [- 100, 5, 6]\<rparr>"
    and a2: "aligned \<lparr>input_ids = [1], attention_mask = [1], labels = [- 100]\<rparr>"
    by (simp_all add: aligned_def)
  then have al: "\<forall>s \<in> set ?seqs. aligned s" by simp
  have L: "max_len (map input_ids ?seqs) = 3" by (simp add: max_len_def)
  have run: "apply_padding toy_tokenizer ?seqs = Inr ?B"
    by (simp add: apply_padding_def pad_sequence_def max_len_def pad_token_def toy_tokenizer_def
          IGNORE_INDEX_def)
  from padding_right_pads [OF ne al, of toy_tokenizer] obtain batch where
    b: "apply_padding toy_tokenizer ?seqs = Inr batch" and
    rows: "\<forall>i < length ?seqs. \<forall>j.
             length (input_ids (?seqs ! i)) \<le> j \<and> j < max_len (map input_ids ?seqs) \<longrightarrow>
               input_ids batch ! i ! j = pad_token toy_tokenizer
             \<and> attention_mask batch ! i ! j = 0
             \<and> labels batch ! i ! j = IGNORE_INDEX"
    by blast
  from b run have B: "batch = ?B" by simp
  have "(1::nat) < length ?seqs" by simp
  with rows have F: "\<forall>j.
             length (input_ids (?seqs ! 1)) \<le> j \<and> j < max_len (map input_ids ?seqs) \<longrightarrow>
               input_ids batch ! 1 ! j = pad_token toy_tokenizer
             \<and> attention_mask batch ! 1 ! j = 0
             \<and> labels batch ! 1 ! j = IGNORE_INDEX"
    by blast
  have len1: "length (input_ids (?seqs ! 1)) = 1" by simp
  have "(1::nat) \<le> 2 \<and> (2::nat) < 3" by simp
  with F have G: "input_ids ?B ! 1 ! 2 = pad_token toy_tokenizer
        \<and> attention_mask ?B ! 1 ! 2 = 0
        \<and> labels ?B ! 1 ! 2 = IGNORE_INDEX"
    unfolding B L len1 by blast
  then have g1: "[[1, 5, 6], [1, 0, 0 :: int]] ! 1 ! 2 = pad_token toy_tokenizer"
    and g2: "[[1, 1, 1], [1, 0, 0 :: int]] ! 1 ! 2 = 0"
    and g3: "[[- 100, 5, 6], [- 100, - 100, - 100 :: int]] ! 1 ! 2 = IGNORE_INDEX"
    by (simp_all only: fields.select_convs)
  from ne a1 a2 run g1 g2 g3 show ?thesis
    by (intro conjI) assumption+
qed

section \<open>Faults of sequence compilation\<close>

lemma conv_loop_unknown_role:
  assumes "t \<in> set conv" and "role t \<noteq> ''user''" and "role t \<noteq> ''assistant''"
  shows "conv_loop tok n conv acc = Inl NotImplementedError"
  using assms(1)
proof (induction conv arbitrary: acc)
  case Nil
  then show ?case by simp
next
  case (Cons x xs)
  show ?case
  proof (cases "x = t")
    case True
    with assms(2,3) show ?thesis by simp
  next
    case False
    with Cons.prems have "t \<in> set xs" by simp
    then show ?thesis by (simp add: Cons.IH apply_chat_template_single)
  qed
qed

lemma mixture_compile_instances_fail:
  assumes "example \<in> set instances"
    and "mixture_compile_example tok n col example = Inl e"
  shows "\<exists>e'. mixture_compile_instances tok n col instances = Inl e'"
  using assms(1)
proof (induction instances)
  case Nil
  then show ?case by simp
next
  case (Cons x xs)
  show ?case
  proof (cases "x = example")
    case True
    with assms(2) show ?thesis by simp
  next
    case False
    with Cons have "\<exists>e'. mixture_compile_instances tok n col xs = Inl e'" by simp
    then show ?thesis by (auto split: sum.splits)
  qed
qed

lemma compile_instances_fail:
  assumes "example \<in> set instances"
    and "\<And>rng. \<exists>e. compile_example sample w tok n example rng = Inl e"
  shows "\<exists>e'. compile_instances sample w tok n instances rng = Inl e'"
  using assms(1)
proof (induction instances arbitrary: rng)
  case Nil
  then show ?case by simp
next
  case (Cons x xs)
  show ?case
  proof (cases "x = example")
    case True
    with assms(2) [of rng] show ?thesis by auto
  next
    case False
    with Cons.prems have mem: "example \<in> set xs" by simp
    show ?thesis
    proof (cases "compile_example sample w tok n x rng")
      case (Inl e)
      then show ?thesis by simp
    next
      case (Inr res)
      obtain s rng' where res: "res = (s, rng')" by (cases res)
      from Cons.IH [OF mem, of rng'] obtain e' where
        "compile_instances sample w tok n xs rng' = Inl e'" ..
      with Inr res show ?thesis by simp
    qed
  qed
qed

lemma mixture_collator_column_fail:
  assumes "example \<in> set instances"
    and "mixture_compile_example tok n col example = Inl e"
  shows "\<exists>e'. DataCollatorForMultiTurnMixtureTraining_collator tok n instances col = Inl e'"
  using mixture_compile_instances_fail [OF assms]
  by (auto simp: DataCollatorForMultiTurnMixtureTraining_collator_def)

lemma mixture_call_fail:
  assumes "DataCollatorForMultiTurnMixtureTraining_collator tok n instances col = Inl e"
    and "col = ''stage1_conv'' \<or> col = ''stage2_conv''"
  shows "\<exists>e'. DataCollatorForMultiTurnMixtureTraining_call tok n instances = Inl e'"
  using assms
  by (auto simp: DataCollatorForMultiTurnMixtureTraining_call_def split: sum.splits)

lemma mixture_collator_fail:
  assumes "example \<in> set instances"
    and "\<And>col. \<exists>e. mixture_compile_example tok n col example = Inl e"
  shows "(\<exists>e. DataCollatorForMultiTurnMixtureTraining_collator tok n instances col = Inl e)
       \<and> (\<exists>e. DataCollatorForMultiTurnMixtureTraining_call tok n instances = Inl e)"
proof -
  have fail: "\<exists>e. DataCollatorForMultiTurnMixtureTraining_collator tok n instances c = Inl e" for c
  proof -
    from assms(2) [of c] obtain e where "mixture_compile_example tok n c example = Inl e" ..
    with assms(1) show ?thesis by (rule mixture_collator_column_fail)
  qed
  from fail [of "''stage2_conv''"] have
    "\<exists>e. DataCollatorForMultiTurnMixtureTraining_call tok n instances = Inl e"
    by (auto simp: DataCollatorForMultiTurnMixtureTraining_call_def)
  with fail [of col] show ?thesis by blast
qed

text \<open>
  Claim C8.  In the mixture collator an example that holds the key \<^verbatim>\<open>prompt\<close> fails the
  assertion: compiling it raises \<^verbatim>\<open>AssertionError\<close> for either stage, and a batch that
  contains such an example is not built, neither by \<^verbatim>\<open>_collator\<close> nor by \<^verbatim>\<open>__call__\<close>.
\<close>

theorem mixture_prompt_aborts:
  assumes "example ''prompt'' = Some prompt"
  shows "mixture_compile_example tok n col example = Inl AssertionError
       \<and> (example \<in> set instances \<longrightarrow>
            (\<exists>e. DataCollatorForMultiTurnMixtureTraining_collator tok n instances col = Inl e)
          \<and> (\<exists>e. DataCollatorForMultiTurnMixtureTraining_call tok n instances = Inl e))"
proof -
  have one: "mixture_compile_example tok n c example = Inl AssertionError" for c
    using assms by (simp add: mixture_compile_example_def)
  then have ex: "\<exists>e. mixture_compile_example tok n c example = Inl e" for c
    by blast
  have "(\<exists>e. DataCollatorForMultiTurnMixtureTraining_collator tok n instances col = Inl e)
          \<and> (\<exists>e. DataCollatorForMultiTurnMixtureTraining_call tok n instances = Inl e)"
    if mem: "example \<in> set instances"
    using mem ex by (rule mixture_collator_fail)
  with one [of col] show ?thesis by blast
qed

theorem mixture_prompt_aborts_witness:
  "[''prompt'' \<mapsto> [], ''stage1_conv'' \<mapsto> [\<lparr>role = ''user'', content = ''hi''\<rparr>],
    ''stage2_conv'' \<mapsto> [\<lparr>role = ''user'', content = ''hi''\<rparr>]] ''prompt'' = Some []
   \<and> mixture_compile_example toy_tokenizer 4 ''stage2_conv''
       [''prompt'' \<mapsto> [], ''stage1_conv'' \<mapsto> [\<lparr>role = ''user'', content = ''hi''\<rparr>],
        ''stage2_conv'' \<mapsto> [\<lparr>role = ''user'', content = ''hi''\<rparr>]]
     = Inl AssertionError
   \<and> DataCollatorForMultiTurnMixtureTraining_call toy_tokenizer 4
       [[''prompt'' \<mapsto> [], ''stage1_conv'' \<mapsto> [\<lparr>role = ''user'', content = ''hi''\<rparr>],
         ''stage2_conv'' \<mapsto> [\<lparr>role = ''user'', content = ''hi''\<rparr>]]]
     = Inl AssertionError"
proof -
  let ?ex = "[''prompt'' \<mapsto> [], ''stage1_conv'' \<mapsto> [\<lparr>role = ''user'', content = ''hi''\<rparr>],
              ''stage2_conv'' \<mapsto> [\<lparr>role = ''user'', content = ''hi''\<rparr>]]"
  have p: "?ex ''prompt'' = Some []" by simp
  have mem: "?ex \<in> set [?ex]" by simp
  from mixture_prompt_aborts [of ?ex "[]" toy_tokenizer 4 "''stage2_conv''" "[?ex]", OF p] mem
  have one: "mixture_compile_example toy_tokenizer 4 ''stage2_conv'' ?ex = Inl AssertionError"
    and "\<exists>e. DataCollatorForMultiTurnMixtureTraining_call toy_tokenizer 4 [?ex] = Inl e"
    by blast+
  then obtain e where e: "DataCollatorForMultiTurnMixtureTraining_call toy_tokenizer 4 [?ex] = Inl e"
    by blast
  have "DataCollatorForMultiTurnMixtureTraining_call toy_tokenizer 4 [?ex] = Inl AssertionError"
    by (simp add: DataCollatorForMultiTurnMixtureTraining_call_def
          DataCollatorForMultiTurnMixtureTraining_collator_def one)
  with p one show ?thesis
    by (intro conjI) assumption+
qed

lemma include_prompt_empty_context:
  assumes "example ''prompt'' = Some []" and "\<not> w \<or> fst (sample rng) mod 2 = 0"
  shows "include_prompt sample w tok example acc rng = Inl IndexError"
  using assms by (auto simp: include_prompt_def prompt_gate_def apply_chat_template_def)

lemma include_prompt_no_fault:
  assumes "\<not> (example ''prompt'' = Some [] \<and> (\<not> w \<or> fst (sample rng) mod 2 = 0))"
  shows "\<exists>p. include_prompt sample w tok example acc rng = Inr p"
  using assms
  by (auto simp: include_prompt_def prompt_gate_def apply_chat_template_def
        split: option.splits)

text \<open>
  Claim C7, as amended.  Let a conversation hold a turn whose role is neither
  \<^verbatim>\<open>user\<close> nor \<^verbatim>\<open>assistant\<close>.  Both collators raise on an example with this conversation
  and build no batch that contains it.  The single-stage collator raises
  \<^verbatim>\<open>NotImplementedError\<close>, unless the example has an empty context that is included:
  then rendering the context raises \<^verbatim>\<open>IndexError\<close> first.  The mixture collator raises
  \<^verbatim>\<open>NotImplementedError\<close> when the example has no key \<^verbatim>\<open>prompt\<close>; when it has one, the
  assertion fails first and the error is \<^verbatim>\<open>AssertionError\<close>.
\<close>

theorem unknown_role_raises:
  assumes "t \<in> set conv" and "role t \<noteq> ''user''" and "role t \<noteq> ''assistant''"
  shows "(example ''conv'' = Some conv \<longrightarrow>
            (example ''prompt'' = Some [] \<and> (\<not> w \<or> fst (sample rng) mod 2 = 0) \<longrightarrow>
               compile_example sample w tok n example rng = Inl IndexError)
          \<and> (\<not> (example ''prompt'' = Some [] \<and> (\<not> w \<or> fst (sample rng) mod 2 = 0)) \<longrightarrow>
               compile_example sample w tok n example rng = Inl NotImplementedError)
          \<and> (example \<in> set instances \<longrightarrow>
               (\<exists>e. DataCollatorForMultiTurnCausalLM_call sample w tok n instances rng0 = Inl e)))
       \<and> (example col = Some conv \<longrightarrow>
            (example ''prompt'' = None \<longrightarrow>
               mixture_compile_example tok n col example = Inl NotImplementedError)
          \<and> (example ''prompt'' \<noteq> None \<longrightarrow>
               mixture_compile_example tok n col example = Inl AssertionError)
          \<and> (example \<in> set instances \<longrightarrow>
               (\<exists>e. DataCollatorForMultiTurnMixtureTraining_collator tok n instances col = Inl e)
             \<and> (col = ''stage1_conv'' \<or> col = ''stage2_conv'' \<longrightarrow>
                  (\<exists>e. DataCollatorForMultiTurnMixtureTraining_call tok n instances = Inl e))))"
proof -
  note loop = conv_loop_unknown_role [OF assms]
  have empty_ctx: "compile_example sample w tok n example r = Inl IndexError"
    if "example ''prompt'' = Some []" "\<not> w \<or> fst (sample r) mod 2 = 0" for r
    using that by (simp add: compile_example_def include_prompt_empty_context)
  have other: "compile_example sample w tok n example r = Inl NotImplementedError"
    if c: "example ''conv'' = Some conv"
      and g: "\<not> (example ''prompt'' = Some [] \<and> (\<not> w \<or> fst (sample r) mod 2 = 0))" for r
  proof -
    have "\<exists>p. include_prompt sample w tok example (init_sequence tok) r = Inr p"
      using g by (rule include_prompt_no_fault)
    then obtain p where
      "include_prompt sample w tok example (init_sequence tok) r = Inr p" ..
    with c show ?thesis by (simp add: compile_example_unfold loop)
  qed
  have any: "\<exists>e. compile_example sample w tok n example r = Inl e"
    if c: "example ''conv'' = Some conv" for r
    using empty_ctx [of r] other [OF c, of r] by blast
  have batch: "\<exists>e. DataCollatorForMultiTurnCausalLM_call sample w tok n instances rng0 = Inl e"
    if c: "example ''conv'' = Some conv" and mem: "example \<in> set instances"
  proof -
    from any [OF c] have "\<And>r. \<exists>e. compile_example sample w tok n example r = Inl e" .
    from compile_instances_fail [OF mem this, of rng0]
    show ?thesis by (auto simp: DataCollatorForMultiTurnCausalLM_call_def)
  qed
  have mix: "mixture_compile_example tok n col example = Inl NotImplementedError"
    if "example col = Some conv" "example ''prompt'' = None"
    using that by (simp add: mixture_compile_example_def getitem_def loop)
  have mixp: "mixture_compile_example tok n col example = Inl AssertionError"
    if "example ''prompt'' \<noteq> None"
    using that by (simp add: mixture_compile_example_def)
  have mixany: "\<exists>e. mixture_compile_example tok n col example = Inl e"
    if "example col = Some conv"
    using mix [OF that] mixp by blast
  have mixbatch: "\<exists>e. DataCollatorForMultiTurnMixtureTraining_collator tok n instances col = Inl e"
    if c: "example col = Some conv" and mem: "example \<in> set instances"
  proof -
    from mixany [OF c] obtain e where "mixture_compile_example tok n col example = Inl e" ..
    with mem show ?thesis by (rule mixture_collator_column_fail)
  qed
  have mixcall: "\<exists>e. DataCollatorForMultiTurnMixtureTraining_call tok n instances = Inl e"
    if c: "example col = Some conv" and mem: "example \<in> set instances"
      and col: "col = ''stage1_conv'' \<or> col = ''stage2_conv''"
  proof -
    from mixbatch [OF c mem] obtain e where
      "DataCollatorForMultiTurnMixtureTraining_collator tok n instances col = Inl e" ..
    then show ?thesis using col by (rule mixture_call_fail)
  qed
  show ?thesis
    by (intro conjI impI; (elim conjE)?;
        (rule empty_ctx other batch mix mixp mixbatch mixcall; assumption))
qed

theorem unknown_role_raises_witness:
  "\<lparr>role = ''system'', content = ''x''\<rparr>
     \<in> set [\<lparr>role = ''user'', content = ''hi''\<rparr>, \<lparr>role = ''system'', content = ''x''\<rparr>]
   \<and> role \<lparr>role = ''system'', content = ''x''\<rparr> \<noteq> ''user''
   \<and> role \<lparr>role = ''system'', content = ''x''\<rparr> \<noteq> ''assistant''
   \<and> compile_example toy_sample True toy_tokenizer 4
       [''conv'' \<mapsto> [\<lparr>role = ''user'', content = ''hi''\<rparr>, \<lparr>role = ''system'', content = ''x''\<rparr>]]
       (0::nat)
     = Inl NotImplementedError
   \<and> DataCollatorForMultiTurnCausalLM_call toy_sample True toy_tokenizer 4
       [[''conv'' \<mapsto> [\<lparr>role = ''user'', content = ''hi''\<rparr>, \<lparr>role = ''system'', content = ''x''\<rparr>]]]
       (0::nat)
     = Inl NotImplementedError
   \<and> compile_example toy_sample False toy_tokenizer 4
       [''prompt'' \<mapsto> [],
        ''conv'' \<mapsto> [\<lparr>role = ''user'', content = ''hi''\<rparr>, \<lparr>role = ''system'', content = ''x''\<rparr>]]
       (0::nat)
     = Inl IndexError
   \<and> mixture_compile_example toy_tokenizer 4 ''stage2_conv''
       [''stage2_conv'' \<mapsto> [\<lparr>role = ''user'', content = ''hi''\<rparr>, \<lparr>role = ''system'', content = ''x''\<rparr>]]
     = Inl NotImplementedError
   \<and> DataCollatorForMultiTurnMixtureTraining_call toy_tokenizer 4
       [[''stage2_conv'' \<mapsto> [\<lparr>role = ''user'', content = ''hi''\<rparr>, \<lparr>role = ''system'', content = ''x''\<rparr>]]]
     = Inl NotImplementedError
   \<and> mixture_compile_example toy_tokenizer 4 ''stage2_conv''
       [''prompt'' \<mapsto> [],
        ''stage2_conv'' \<mapsto> [\<lparr>role = ''user'', content = ''hi''\<rparr>, \<lparr>role = ''system'', content = ''x''\<rparr>]]
     = Inl AssertionError"
proof -
  let ?t = "\<lparr>role = ''system'', content = ''x''\<rparr>"
  let ?conv = "[\<lparr>role = ''user'', content = ''hi''\<rparr>, ?t]"
  let ?ex1 = "[''conv'' \<mapsto> ?conv]"
  let ?ex0 = "[''prompt'' \<mapsto> [], ''conv'' \<mapsto> ?conv]"
  let ?ex2 = "[''stage2_conv'' \<mapsto> ?conv]"
  let ?ex3 = "[''prompt'' \<mapsto> [], ''stage2_conv'' \<mapsto> ?conv]"
  have mem: "?t \<in> set ?conv" by simp
  have nu: "role ?t \<noteq> ''user''" by simp
  have na: "role ?t \<noteq> ''assistant''" by simp
  note T1 = unknown_role_raises [OF mem nu na, where example = ?ex1
      and sample = toy_sample and w = True and tok = toy_tokenizer and n = 4 and rng = "0::nat"
      and instances = "[?ex1]" and rng0 = "0::nat" and col = "''stage2_conv''",
      THEN conjunct1, THEN mp]
  note T0 = unknown_role_raises [OF mem nu na, where example = ?ex0
      and sample = toy_sample and w = False and tok = toy_tokenizer and n = 4 and rng = "0::nat"
      and instances = "[?ex0]" and rng0 = "0::nat" and col = "''stage2_conv''",
      THEN conjunct1, THEN mp]
  note T2 = unknown_role_raises [OF mem nu na, where example = ?ex2
      and sample = toy_sample and w = True and tok = toy_tokenizer and n = 4 and rng = "0::nat"
      and instances = "[?ex2]" and rng0 = "0::nat" and col = "''stage2_conv''",
      THEN conjunct2, THEN mp]
  note T3 = unknown_role_raises [OF mem nu na, where example = ?ex3
      and sample = toy_sample and w = True and tok = toy_tokenizer and n = 4 and rng = "0::nat"
      and instances = "[?ex3]" and rng0 = "0::nat" and col = "''stage2_conv''",
      THEN conjunct2, THEN mp]
  have c1: "?ex1 ''conv'' = Some ?conv" by simp
  have c0: "?ex0 ''conv'' = Some ?conv" by simp
  have c2: "?ex2 ''stage2_conv'' = Some ?conv" by simp
  have c3: "?ex3 ''stage2_conv'' = Some ?conv" by simp
  have g1: "\<not> (?ex1 ''prompt'' = Some [] \<and> (\<not> True \<or> fst (toy_sample (0::nat)) mod 2 = 0))"
    by simp
  have g0: "?ex0 ''prompt'' = Some [] \<and> (\<not> False \<or> fst (toy_sample (0::nat)) mod 2 = 0)"
    by simp
  have p2: "?ex2 ''prompt'' = None" by simp
  have p3: "?ex3 ''prompt'' \<noteq> None" by simp
  have r1: "compile_example toy_sample True toy_tokenizer 4 ?ex1 (0::nat) = Inl NotImplementedError"
    using T1 [OF c1, THEN conjunct2, THEN conjunct1, THEN mp, OF g1] .
  have "\<exists>e. DataCollatorForMultiTurnCausalLM_call toy_sample True toy_tokenizer 4 [?ex1] (0::nat) = Inl e"
    using T1 [OF c1, THEN conjunct2, THEN conjunct2, THEN mp] by simp
  have b1: "DataCollatorForMultiTurnCausalLM_call toy_sample True toy_tokenizer 4 [?ex1] (0::nat)
              = Inl NotImplementedError"
    by (simp add: DataCollatorForMultiTurnCausalLM_call_def r1)
  have r0: "compile_example toy_sample False toy_tokenizer 4 ?ex0 (0::nat) = Inl IndexError"
    using T0 [OF c0, THEN conjunct1, THEN mp, OF g0] .
  have r2: "mixture_compile_example toy_tokenizer 4 ''stage2_conv'' ?ex2 = Inl NotImplementedError"
    using T2 [OF c2, THEN conjunct1, THEN mp, OF p2] .
  have b2: "DataCollatorForMultiTurnMixtureTraining_call toy_tokenizer 4 [?ex2]
              = Inl NotImplementedError"
    by (simp add: DataCollatorForMultiTurnMixtureTraining_call_def
          DataCollatorForMultiTurnMixtureTraining_collator_def r2)
  have r3: "mixture_compile_example toy_tokenizer 4 ''stage2_conv'' ?ex3 = Inl AssertionError"
    using T3 [OF c3, THEN conjunct2, THEN conjunct1, THEN mp, OF p3] .
  from mem nu na r1 b1 r0 r2 b2 r3 show ?thesis
    by (intro conjI) assumption+
qed

text \<open>
  Claim C7 as stated fails where an earlier fault of the example comes first: in the
  mixture collator an example with the key \<^verbatim>\<open>prompt\<close> and a turn of the role \<^verbatim>\<open>system\<close>
  raises \<^verbatim>\<open>AssertionError\<close>, and in the single-stage collator an example with an empty
  context and such a turn raises \<^verbatim>\<open>IndexError\<close>; neither raises \<^verbatim>\<open>NotImplementedError\<close>.
\<close>

theorem unknown_role_counterexample:
  "mixture_compile_example toy_tokenizer 4 ''stage2_conv''
     [''prompt'' \<mapsto> [], ''stage2_conv'' \<mapsto> [\<lparr>role = ''system'', content = ''x''\<rparr>]]
     = Inl AssertionError
   \<and> mixture_compile_example toy_tokenizer 4 ''stage2_conv''
       [''prompt'' \<mapsto> [], ''stage2_conv'' \<mapsto> [\<lparr>role = ''system'', content = ''x''\<rparr>]]
     \<noteq> Inl NotImplementedError
   \<and> compile_example toy_sample False toy_tokenizer 4
       [''prompt'' \<mapsto> [], ''conv'' \<mapsto> [\<lparr>role = ''system'', content = ''x''\<rparr>]] (0::nat)
     = Inl IndexError
   \<and> compile_example toy_sample False toy_tokenizer 4
       [''prompt'' \<mapsto> [], ''conv'' \<mapsto> [\<lparr>role = ''system'', content = ''x''\<rparr>]] (0::nat)
     \<noteq> Inl NotImplementedError"
  by (simp add: mixture_compile_example_def compile_example_def include_prompt_def
        prompt_gate_def apply_chat_template_def)

section \<open>The context history\<close>

lemma context_turns_role:
  assumes "i < length (context_turns context)"
  shows "role (context_turns context ! i) = (if i mod 2 = 0 then ''user'' else ''assistant'')"
  using assms by (simp add: context_turns_def Let_def nth_enumerate_eq)

lemma context_turns_last_role:
  assumes "context_turns context \<noteq> []"
  shows "role (last (context_turns context))
           = (if (length (context_turns context) - 1) mod 2 = 0 then ''user'' else ''assistant'')"
proof -
  from assms have "length (context_turns context) - 1 < length (context_turns context)"
    by simp
  from context_turns_role [OF this] assms show ?thesis
    by (simp add: last_conv_nth)
qed

text \<open>
  Claim C9.  When the text of a context yields at least one turn, the context history
  is built without error; if the last turn is a user turn it is dropped, otherwise the
  turns are kept as they are; and the history that is stored for rendering is empty or
  ends with an assistant turn.
\<close>

theorem context_history_ends_with_assistant:
  assumes "context_turns context \<noteq> []"
  shows "\<exists>h. context_history context = Inr h
       \<and> (role (last (context_turns context)) = ''user'' \<longrightarrow> h = butlast (context_turns context))
       \<and> (role (last (context_turns context)) \<noteq> ''user'' \<longrightarrow> h = context_turns context)
       \<and> (h = [] \<or> role (last h) = ''assistant'')"
proof (cases "role (last (context_turns context)) = ''user''")
  case True
  let ?ts = "context_turns context"
  from True assms have res: "context_history context = Inr (butlast ?ts)"
    by (simp add: context_history_def Let_def)
  have "butlast ?ts = [] \<or> role (last (butlast ?ts)) = ''assistant''"
  proof (cases "butlast ?ts = []")
    case True
    then show ?thesis ..
  next
    case False
    then have "0 < length (butlast ?ts)" by (rule length_greater_0_conv [THEN iffD2])
    then have "0 < length ?ts - 1" by (simp only: length_butlast)
    then have len: "2 \<le> length ?ts" by arith
    from True context_turns_last_role [OF assms] have even: "(length ?ts - 1) mod 2 = 0"
      by (simp split: if_splits)
    from len have idx: "length ?ts - 2 < length ?ts" by simp
    from False have "last (butlast ?ts) = butlast ?ts ! (length ?ts - 2)"
      by (simp add: last_conv_nth numeral_2_eq_2)
    also from len have "\<dots> = ?ts ! (length ?ts - 2)"
      by (simp add: nth_butlast)
    finally have "role (last (butlast ?ts)) = role (?ts ! (length ?ts - 2))" by simp
    also from context_turns_role [OF idx] have "\<dots> = (if (length ?ts - 2) mod 2 = 0 then ''user'' else ''assistant'')" .
    also from even len have "(length ?ts - 2) mod 2 \<noteq> 0" by presburger
    then have "(if (length ?ts - 2) mod 2 = 0 then ''user'' else ''assistant'') = ''assistant''" by simp
    finally show ?thesis ..
  qed
  with res True show ?thesis by blast
next
  case False
  let ?ts = "context_turns context"
  from False assms have res: "context_history context = Inr ?ts"
    by (simp add: context_history_def Let_def)
  from False context_turns_last_role [OF assms] have "role (last ?ts) = ''assistant''"
    by (simp split: if_splits)
  with res False show ?thesis by blast
qed

theorem context_history_ends_with_assistant_witness:
  "context_turns ''<USER>: a <AGENT>: b<USER>:c '' \<noteq> []
   \<and> role (last (context_turns ''<USER>: a <AGENT>: b<USER>:c '')) = ''user''
   \<and> context_history ''<USER>: a <AGENT>: b<USER>:c ''
       = Inr [\<lparr>role = ''user'', content = ''a''\<rparr>, \<lparr>role = ''assistant'', content = ''b''\<rparr>]
   \<and> role (last [\<lparr>role = ''user'', content = ''a''\<rparr>, \<lparr>role = ''assistant'', content = ''b''\<rparr>])
       = ''assistant''"
proof -
  let ?c = "''<USER>: a <AGENT>: b<USER>:c ''"
  have turns: "context_turns ?c
         = [\<lparr>role = ''user'', content = ''a''\<rparr>, \<lparr>role = ''assistant'', content = ''b''\<rparr>,
            \<lparr>role = ''user'', content = ''c''\<rparr>]"
    by (simp add: context_turns_def strip_def isspace_def enumerate_eq_zip)
  then have ne: "context_turns ?c \<noteq> []" by simp
  from turns have u: "role (last (context_turns ?c)) = ''user''" by simp
  from context_history_ends_with_assistant [OF ne] u obtain h where
    h: "context_history ?c = Inr h" and "h = butlast (context_turns ?c)"
    by blast
  with turns have hv: "h = [\<lparr>role = ''user'', content = ''a''\<rparr>, \<lparr>role = ''assistant'', content = ''b''\<rparr>]"
    by simp
  have r: "role (last [\<lparr>role = ''user'', content = ''a''\<rparr>, \<lparr>role = ''assistant'', content = ''b''\<rparr>])
       = ''assistant''"
    by simp
  from ne u h [unfolded hv] r show ?thesis
    by (intro conjI) assumption+
qed

section \<open>The context of a single-stage example\<close>

lemma include_prompt_included:
  assumes "include_prompt sample w tok example (init_sequence tok) rng = Inr (acc, r)"
    and "example ''prompt'' = Some prompt"
    and "\<not> w \<or> fst (sample rng) mod 2 = 0"
  shows "acc = \<lparr>input_ids = bos_token_id tok # drop 1 (chat_template tok prompt False),
              attention_mask = replicate (1 + length (drop 1 (chat_template tok prompt False))) 1,
              labels = replicate (1 + length (drop 1 (chat_template tok prompt False))) IGNORE_INDEX\<rparr>"
  using assms
  by (auto simp: include_prompt_def prompt_gate_def init_sequence_def append_ignored_def
        apply_chat_template_def encoding_of_def drop_replicate split: if_splits)

lemma include_prompt_excluded:
  assumes "include_prompt sample w tok example acc0 rng = Inr (acc, r)"
    and "example ''prompt'' = Some prompt"
    and "w \<and> fst (sample rng) mod 2 \<noteq> 0"
  shows "acc = acc0"
  using assms by (simp add: include_prompt_def prompt_gate_def)

lemma include_prompt_absent:
  "include_prompt sample w tok (example(''prompt'' := None)) acc rng = Inr (acc, rng)"
  by (simp add: include_prompt_def)

lemma include_prompt_rng:
  assumes "include_prompt sample w tok example acc0 rng = Inr (acc, r)"
    and "example ''prompt'' = Some prompt"
  shows "r = (if w then snd (sample rng) else rng)"
  using assms
  by (auto simp: include_prompt_def prompt_gate_def split: if_splits sum.splits)

lemma take_extends:
  assumes "xs = ys @ zs" and "k = length ys"
  shows "take k xs = ys"
  using assms by simp

text \<open>
  Claim C6, as amended.  Let an example with a context compile to \<open>seq\<close>.  When the
  randomize flag is unset, or it is set and the number drawn from \<^verbatim>\<open>[0, 1]\<close> is even, the
  context is included: \<open>seq\<close> starts with the beginning-of-sequence id followed by the
  context rendered by the chat template with \<^verbatim>\<open>add_generation_prompt=False\<close>, its first
  token cut off, and every label on this stretch is \<open>IGNORE_INDEX\<close>.  When the flag is set
  and the number drawn is odd, \<open>seq\<close> is what the example compiles to without its context.
  The generator is advanced by one draw when the flag is set and is left alone otherwise.
\<close>

theorem context_inclusion:
  assumes "example ''prompt'' = Some prompt"
    and "compile_example sample w tok n example rng = Inr (seq, rng')"
  shows "(\<not> w \<or> fst (sample rng) mod 2 = 0 \<longrightarrow>
            take (1 + length (drop 1 (chat_template tok prompt False))) (input_ids seq)
              = bos_token_id tok # drop 1 (chat_template tok prompt False)
          \<and> take (1 + length (drop 1 (chat_template tok prompt False))) (labels seq)
              = replicate (1 + length (drop 1 (chat_template tok prompt False))) IGNORE_INDEX)
       \<and> (w \<and> fst (sample rng) mod 2 \<noteq> 0 \<longrightarrow>
            map_sum id fst (compile_example sample w tok n (example(''prompt'' := None)) rng)
              = Inr seq)
       \<and> rng' = (if w then snd (sample rng) else rng)"
proof -
  let ?ctx = "drop 1 (chat_template tok prompt False)"
  from compile_example_has_conv [OF assms(2)] obtain conv where
    conv: "example ''conv'' = Some conv" ..
  from compile_example_loop [OF assms(2) conv] obtain acc where
    incl: "include_prompt sample w tok example (init_sequence tok) rng = Inr (acc, rng')" and
    loop: "conv_loop tok n conv acc = Inr seq"
    by blast
  from conv_loop_extends [OF loop] obtain ids masks labs where
    ext: "input_ids seq = input_ids acc @ ids" "labels seq = labels acc @ labs"
    by blast
  have incl_case: "take (1 + length ?ctx) (input_ids seq) = bos_token_id tok # ?ctx
          \<and> take (1 + length ?ctx) (labels seq) = replicate (1 + length ?ctx) IGNORE_INDEX"
    if g: "\<not> w \<or> fst (sample rng) mod 2 = 0"
  proof -
    have acc: "acc = \<lparr>input_ids = bos_token_id tok # ?ctx,
              attention_mask = replicate (1 + length ?ctx) 1,
              labels = replicate (1 + length ?ctx) IGNORE_INDEX\<rparr>"
      using incl assms(1) g by (rule include_prompt_included)
    from ext(1) have "take (1 + length ?ctx) (input_ids seq) = input_ids acc"
      by (rule take_extends) (simp add: acc)
    moreover from ext(2) have "take (1 + length ?ctx) (labels seq) = labels acc"
      by (rule take_extends) (simp add: acc)
    ultimately show ?thesis by (simp add: acc)
  qed
  have excl_case: "map_sum id fst (compile_example sample w tok n (example(''prompt'' := None)) rng)
              = Inr seq"
    if g: "w \<and> fst (sample rng) mod 2 \<noteq> 0"
  proof -
    have "acc = init_sequence tok"
      using incl assms(1) g by (rule include_prompt_excluded)
    with loop have "conv_loop tok n conv (init_sequence tok) = Inr seq" by simp
    moreover from conv have "(example(''prompt'' := None)) ''conv'' = Some conv" by simp
    ultimately show ?thesis
      by (simp add: compile_example_unfold include_prompt_absent)
  qed
  have r: "rng' = (if w then snd (sample rng) else rng)"
    using incl assms(1) by (rule include_prompt_rng)
  from incl_case excl_case r show ?thesis by blast
qed

text \<open>
  Claim C6 as stated fails on the framing: with a chat template whose generation prompt
  is not empty, the compiled context is not the one rendered with the framing that
  expects a reply.
\<close>

theorem context_rendering_counterexample:
  "map_sum id (input_ids \<circ> fst)
     (compile_example toy_sample False toy_tokenizer 4
        [''prompt'' \<mapsto> [\<lparr>role = ''user'', content = ''hi''\<rparr>, \<lparr>role = ''assistant'', content = ''yo''\<rparr>],
         ''conv'' \<mapsto> []] (0::nat))
     = Inr [1, 10, 104, 105, 2, 11, 121, 111, 2]
   \<and> bos_token_id toy_tokenizer
       # claimed_context_tokens toy_tokenizer
           [\<lparr>role = ''user'', content = ''hi''\<rparr>, \<lparr>role = ''assistant'', content = ''yo''\<rparr>]
     = [1, 10, 104, 105, 2, 11, 121, 111, 2, 11]
   \<and> map_sum id (input_ids \<circ> fst)
     (compile_example toy_sample False toy_tokenizer 4
        [''prompt'' \<mapsto> [\<lparr>role = ''user'', content = ''hi''\<rparr>, \<lparr>role = ''assistant'', content = ''yo''\<rparr>],
         ''conv'' \<mapsto> []] (0::nat))
     \<noteq> Inr (bos_token_id toy_tokenizer
       # claimed_context_tokens toy_tokenizer
           [\<lparr>role = ''user'', content = ''hi''\<rparr>, \<lparr>role = ''assistant'', content = ''yo''\<rparr>])"
  by (simp add: compile_example_def include_prompt_def prompt_gate_def getitem_def
        init_sequence_def append_ignored_def apply_chat_template_def encoding_of_def
        claimed_context_tokens_def toy_tokenizer_def)

theorem context_inclusion_witness:
  "[''prompt'' \<mapsto> [\<lparr>role = ''user'', content = ''hi''\<rparr>, \<lparr>role = ''assistant'', content = ''yo''\<rparr>],
    ''conv'' \<mapsto> [\<lparr>role = ''user'', content = ''ok''\<rparr>]] ''prompt''
     = Some [\<lparr>role = ''user'', content = ''hi''\<rparr>, \<lparr>role = ''assistant'', content = ''yo''\<rparr>]
   \<and> compile_example toy_sample False toy_tokenizer 4
       [''prompt'' \<mapsto> [\<lparr>role = ''user'', content = ''hi''\<rparr>, \<lparr>role = ''assistant'', content = ''yo''\<rparr>],
        ''conv'' \<mapsto> [\<lparr>role = ''user'', content = ''ok''\<rparr>]] (0::nat)
     = Inr (\<lparr>input_ids = [1, 10, 104, 105, 2, 11, 121, 111, 2, 10, 111, 107, 2, 11],
             attention_mask = [1, 1, 1, 1, 1, 1, 1, 1, 1, 1, 1, 1, 1, 1],
             labels = [- 100, - 100, - 100, - 100, - 100, - 100, - 100, - 100, - 100,
                       - 100, - 100, - 100, - 100, - 100]\<rparr>, 0)
   \<and> take 9 [1, 10, 104, 105, 2, 11, 121, 111, 2, 10, 111, 107, 2, 11 :: int]
     = bos_token_id toy_tokenizer
       # drop 1 (chat_template toy_tokenizer
            [\<lparr>role = ''user'', content = ''hi''\<rparr>, \<lparr>role = ''assistant'', content = ''yo''\<rparr>] False)
   \<and> compile_example toy_sample True toy_tokenizer 4
       [''prompt'' \<mapsto> [\<lparr>role = ''user'', content = ''hi''\<rparr>, \<lparr>role = ''assistant'', content = ''yo''\<rparr>],
        ''conv'' \<mapsto> [\<lparr>role = ''user'', content = ''ok''\<rparr>]] (1::nat)
     = Inr (\<lparr>input_ids = [1, 10, 111, 107, 2, 11],
             attention_mask = [1, 1, 1, 1, 1, 1],
             labels = [- 100, - 100, - 100, - 100, - 100, - 100]\<rparr>, 2)
   \<and> map_sum id fst (compile_example toy_sample True toy_tokenizer 4
       ([''prompt'' \<mapsto> [\<lparr>role = ''user'', content = ''hi''\<rparr>, \<lparr>role = ''assistant'', content = ''yo''\<rparr>],
         ''conv'' \<mapsto> [\<lparr>role = ''user'', content = ''ok''\<rparr>]](''prompt'' := None)) (1::nat))
     = Inr \<lparr>input_ids = [1, 10, 111, 107, 2, 11],
             attention_mask = [1, 1, 1, 1, 1, 1],
             labels = [- 100, - 100, - 100, - 100, - 100, - 100]\<rparr>"
proof -
  let ?p = "[\<lparr>role = ''user'', content = ''hi''\<rparr>, \<lparr>role = ''assistant'', content = ''yo''\<rparr>]"
  let ?ex = "[''prompt'' \<mapsto> ?p, ''conv'' \<mapsto> [\<lparr>role = ''user'', content = ''ok''\<rparr>]]"
  let ?in = "\<lparr>input_ids = [1, 10, 104, 105, 2, 11, 121, 111, 2, 10, 111, 107, 2, 11],
             attention_mask = [1, 1, 1, 1, 1, 1, 1, 1, 1, 1, 1, 1, 1, 1],
             labels = [- 100, - 100, - 100, - 100, - 100, - 100, - 100, - 100, - 100,
                       - 100, - 100, - 100, - 100, - 100 :: int]\<rparr>"
  let ?out = "\<lparr>input_ids = [1, 10, 111, 107, 2, 11],
             attention_mask = [1, 1, 1, 1, 1, 1],
             labels = [- 100, - 100, - 100, - 100, - 100, - 100 :: int]\<rparr>"
  have p: "?ex ''prompt'' = Some ?p" by simp
  have run1: "compile_example toy_sample False toy_tokenizer 4 ?ex (0::nat) = Inr (?in, 0)"
    by (simp add: compile_example_def include_prompt_def prompt_gate_def getitem_def
          init_sequence_def append_ignored_def apply_chat_template_def encoding_of_def
          toy_tokenizer_def IGNORE_INDEX_def)
  have run2: "compile_example toy_sample True toy_tokenizer 4 ?ex (1::nat) = Inr (?out, 2)"
    by (simp add: compile_example_def include_prompt_def prompt_gate_def getitem_def
          init_sequence_def append_ignored_def apply_chat_template_def encoding_of_def
          toy_tokenizer_def toy_sample_def IGNORE_INDEX_def)
  have len: "1 + length (drop 1 (chat_template toy_tokenizer ?p False)) = 9"
    by (simp add: toy_tokenizer_def)
  have g1: "\<not> False \<or> fst (toy_sample (0::nat)) mod 2 = 0" by simp
  have g2: "True \<and> fst (toy_sample (1::nat)) mod 2 \<noteq> 0" by (simp add: toy_sample_def)
  from context_inclusion [of ?ex ?p toy_sample False toy_tokenizer 4 0 ?in 0, OF p run1] g1
  have "take (1 + length (drop 1 (chat_template toy_tokenizer ?p False))) (input_ids ?in)
          = bos_token_id toy_tokenizer # drop 1 (chat_template toy_tokenizer ?p False)"
    by blast
  then have t1: "take 9 [1, 10, 104, 105, 2, 11, 121, 111, 2, 10, 111, 107, 2, 11 :: int]
     = bos_token_id toy_tokenizer # drop 1 (chat_template toy_tokenizer ?p False)"
    unfolding len by (simp only: fields.select_convs)
  from context_inclusion [of ?ex ?p toy_sample True toy_tokenizer 4 1 ?out 2, OF p run2] g2
  have t2: "map_sum id fst (compile_example toy_sample True toy_tokenizer 4
              (?ex(''prompt'' := None)) (1::nat)) = Inr ?out"
    by blast
  from p run1 t1 run2 t2 show ?thesis
    by (intro conjI) assumption+
qed

end
